theory Spec2Isabelle
  imports Complex_Main "HOL-Library.Multiset" "HOL-Library.List_Lexorder"
begin

section \<open>Python values and errors\<close>

text \<open>
  Exceptions of the Python source are values: every function that can raise returns
  \<open>pyerr + 'a\<close>, with \<open>Inl\<close> carrying the exception. Floating-point tensors are
  idealised as lists of reals; the one place where the source produces a value that is
  not a real number (the mean of an empty tensor, a division by zero inside a tensor)
  is written out as \<open>NaN\<close>.
\<close>

datatype pyerr =
    ZeroDivisionError
  | IndexError
  | KeyError string
  | RuntimeError
  | TypeError
  | AttributeError
  | AssertionError
  | ValueError string

datatype scalar = Finite real | NaN

text \<open>The tensor a Python list comprehension builds: the first element that raises aborts it.\<close>

fun sequence_err :: "('e + 'a) list \<Rightarrow> 'e + 'a list" where
  "sequence_err [] = Inr []"
| "sequence_err (x # xs) =
     (case x of
        Inl e \<Rightarrow> Inl e
      | Inr v \<Rightarrow> (case sequence_err xs of Inl e \<Rightarrow> Inl e | Inr vs \<Rightarrow> Inr (v # vs)))"

section \<open>One-dimensional tensors\<close>

text \<open>
  \<open>a + b\<close> on tensors of shape (m) and (n): elementwise when the shapes agree, broadcast
  when one of them has a single element, a RuntimeError otherwise.
\<close>

definition tensor_add :: "real list \<Rightarrow> real list \<Rightarrow> pyerr + real list" where
  "tensor_add a b =
     (if length a = length b then Inr (map2 (+) a b)
      else if length a = 1 then Inr (map (\<lambda>y. hd a + y) b)
      else if length b = 1 then Inr (map (\<lambda>x. x + hd b) a)
      else Inl RuntimeError)"

text \<open>
  Python's \<open>sum\<close> on a non-empty list of tensors: \<open>((0 + t0) + t1) + ...\<close>, where
  \<open>0 + t0\<close> is \<open>t0\<close>.
\<close>

fun tensor_sum :: "real list \<Rightarrow> real list list \<Rightarrow> pyerr + real list" where
  "tensor_sum acc [] = Inr acc"
| "tensor_sum acc (t # ts) =
     (case tensor_add acc t of Inl e \<Rightarrow> Inl e | Inr acc' \<Rightarrow> tensor_sum acc' ts)"

text \<open>\<open>t.mean()\<close>: the mean of an empty tensor is NaN.\<close>

definition tensor_mean :: "real list \<Rightarrow> scalar" where
  "tensor_mean t = (if t = [] then NaN else Finite (sum_list t / real (length t)))"

text \<open>
  \<open>torch.min\<close> along a row: the minimal value and the index of its first occurrence.
  \<open>argmin_from best besti i xs\<close> scans \<open>xs\<close>, whose first element has index \<open>i\<close>.
\<close>

fun argmin_from :: "real \<Rightarrow> nat \<Rightarrow> nat \<Rightarrow> real list \<Rightarrow> real \<times> nat" where
  "argmin_from best besti i [] = (best, besti)"
| "argmin_from best besti i (x # xs) =
     (if x < best then argmin_from x i (Suc i) xs else argmin_from best besti (Suc i) xs)"

definition torch_min_row :: "real list \<Rightarrow> pyerr + real \<times> nat" where
  "torch_min_row row =
     (case row of [] \<Rightarrow> Inl IndexError | x # xs \<Rightarrow> Inr (argmin_from x 0 1 xs))"

text \<open>
  \<open>torch.stack(cols, dim=1)\<close> of tensors of shape (B): all shapes must agree. The result,
  of shape (B, P), is kept as its list of rows.
\<close>

definition torch_stack :: "real list list \<Rightarrow> pyerr + real list list" where
  "torch_stack cols =
     (case cols of
        [] \<Rightarrow> Inl RuntimeError
      | c # cs \<Rightarrow>
          if \<forall>d \<in> set cs. length d = length c
          then Inr (map (\<lambda>b. map (\<lambda>col. col ! b) cols) [0..<length c])
          else Inl RuntimeError)"

text \<open>
  Indexing a row with an integer tensor entry: a negative entry counts from the end of the
  row, an entry outside the row is an IndexError.
\<close>

definition py_index :: "'a list \<Rightarrow> int \<Rightarrow> pyerr + 'a" where
  "py_index xs i =
     (if 0 \<le> i \<and> i < int (length xs) then Inr (xs ! nat i)
      else if i < 0 \<and> - int (length xs) \<le> i then Inr (xs ! nat (int (length xs) + i))
      else Inl IndexError)"

text \<open>
  \<open>losses[torch.arange(B), perm]\<close> for \<open>losses\<close> of shape (B, P) and \<open>perm\<close> of shape (n):
  the two index tensors are broadcast against each other.
\<close>

definition index_rows :: "real list list \<Rightarrow> int list \<Rightarrow> pyerr + real list" where
  "index_rows rows perm =
     (if length perm = length rows
      then sequence_err (map2 py_index rows perm)
      else if length perm = 1
      then sequence_err (map (\<lambda>row. py_index row (hd perm)) rows)
      else if length rows = 1
      then sequence_err (map (\<lambda>i. py_index (hd rows) i) perm)
      else Inl IndexError)"

section \<open>itertools.permutations\<close>

text \<open>
  \<open>picks xs\<close> lists every element of \<open>xs\<close> together with the remaining elements, in order.
  \<open>permutations xs\<close> emits the permutations of \<open>xs\<close> in the order of
  \<open>itertools.permutations\<close>: by the position of the first element, then recursively.
\<close>

fun picks :: "'a list \<Rightarrow> ('a \<times> 'a list) list" where
  "picks [] = []"
| "picks (x # xs) = (x, xs) # map (\<lambda>(y, ys). (y, x # ys)) (picks xs)"

fun perms_of :: "nat \<Rightarrow> 'a list \<Rightarrow> 'a list list" where
  "perms_of 0 xs = [[]]"
| "perms_of (Suc n) xs =
     concat (map (\<lambda>(y, ys). map ((#) y) (perms_of n ys)) (picks xs))"

definition permutations :: "'a list \<Rightarrow> 'a list list" where
  "permutations xs = perms_of (length xs) xs"

section \<open>The permutation-invariant loss\<close>

text \<open>
  \<open>pair_loss\<close> is the inner function of \<open>_permutation_loss\<close>:
  \<open>sum([criterion(ref[s], inf[t]) for s, t in enumerate(permutation)]) / len(permutation)\<close>.
  The criterion returns a tensor of shape (batch), or raises. The argument \<open>inf\<close> of
  the source is written \<open>infr\<close>.
\<close>

definition pair_loss ::
  "'t list \<Rightarrow> 't list \<Rightarrow> ('t \<Rightarrow> 't \<Rightarrow> pyerr + real list) \<Rightarrow> nat list \<Rightarrow> pyerr + real list" where
  "pair_loss ref infr criterion permutation =
     (case sequence_err
             (map (\<lambda>(s, t).
                     if s < length ref
                     then (if t < length infr then criterion (ref ! s) (infr ! t) else Inl IndexError)
                     else Inl IndexError)
                  (enumerate 0 permutation)) of
        Inl e \<Rightarrow> Inl e
      | Inr [] \<Rightarrow> Inl ZeroDivisionError
      | Inr (t0 # ts) \<Rightarrow>
          (case tensor_sum t0 ts of
             Inl e \<Rightarrow> Inl e
           | Inr s \<Rightarrow> Inr (map (\<lambda>x. x / real (length permutation)) s)))"

datatype perm_out = PermTensor "int list" | PermList "nat list"

text \<open>\<open>ESPnetEnhancementModel._permutation_loss(ref, inf, criterion, perm, use_pit)\<close>.\<close>

definition permutation_loss ::
  "'t list \<Rightarrow> 't list \<Rightarrow> ('t \<Rightarrow> 't \<Rightarrow> pyerr + real list) \<Rightarrow> int list option \<Rightarrow> bool
     \<Rightarrow> pyerr + scalar \<times> perm_out" where
  "permutation_loss ref infr criterion perm use_pit =
     (let num_spk = length ref in
      if use_pit then
        (case sequence_err (map (pair_loss ref infr criterion) (permutations [0..<num_spk])) of
           Inl e \<Rightarrow> Inl e
         | Inr cols \<Rightarrow>
             (case torch_stack cols of
                Inl e \<Rightarrow> Inl e
              | Inr losses \<Rightarrow>
                  (case perm of
                     None \<Rightarrow>
                       (case sequence_err (map torch_min_row losses) of
                          Inl e \<Rightarrow> Inl e
                        | Inr mins \<Rightarrow>
                            Inr (tensor_mean (map fst mins),
                                 PermTensor (map (\<lambda>m. int (snd m)) mins)))
                   | Some p \<Rightarrow>
                       (case index_rows losses p of
                          Inl e \<Rightarrow> Inl e
                        | Inr loss \<Rightarrow> Inr (tensor_mean loss, PermTensor p)))))
      else
        (case pair_loss ref infr criterion [0..<num_spk] of
           Inl e \<Rightarrow> Inl e
         | Inr loss \<Rightarrow> Inr (tensor_mean loss, PermList [0..<num_spk])))"

text \<open>\<open>ESPnetFrontendModel._permutation_loss(ref, inf, criterion, perm)\<close>: always searches.\<close>

definition frontend_permutation_loss ::
  "'t list \<Rightarrow> 't list \<Rightarrow> ('t \<Rightarrow> 't \<Rightarrow> pyerr + real list) \<Rightarrow> int list option
     \<Rightarrow> pyerr + scalar \<times> perm_out" where
  "frontend_permutation_loss ref infr criterion perm =
     (let num_spk = length ref in
      case sequence_err (map (pair_loss ref infr criterion) (permutations [0..<num_spk])) of
        Inl e \<Rightarrow> Inl e
      | Inr cols \<Rightarrow>
          (case torch_stack cols of
             Inl e \<Rightarrow> Inl e
           | Inr losses \<Rightarrow>
               (case perm of
                  None \<Rightarrow>
                    (case sequence_err (map torch_min_row losses) of
                       Inl e \<Rightarrow> Inl e
                     | Inr mins \<Rightarrow>
                         Inr (tensor_mean (map fst mins),
                              PermTensor (map (\<lambda>m. int (snd m)) mins)))
                | Some p \<Rightarrow>
                    (case index_rows losses p of
                       Inl e \<Rightarrow> Inl e
                     | Inr loss \<Rightarrow> Inr (tensor_mean loss, PermTensor p)))))"

section \<open>The permutation-invariant loss as the specification words it\<close>

text \<open>
  The value of the criterion at batch element \<open>b\<close>, the aggregate distortion
  \<open>(1/K) * sum_i criterion(ref_i, hyp_p(i))\<close> of a permutation \<open>p\<close> at \<open>b\<close>, the
  permutations of \<open>{0..K-1}\<close>, the minimum over all of them, and the mean of that minimum
  over the batch.
\<close>

definition cval :: "('t \<Rightarrow> 't \<Rightarrow> pyerr + real list) \<Rightarrow> 't \<Rightarrow> 't \<Rightarrow> nat \<Rightarrow> real" where
  "cval criterion r h b = (case criterion r h of Inr v \<Rightarrow> v ! b | Inl e \<Rightarrow> 0)"

definition perm_distortion ::
  "'t list \<Rightarrow> 't list \<Rightarrow> ('t \<Rightarrow> 't \<Rightarrow> pyerr + real list) \<Rightarrow> nat list \<Rightarrow> nat \<Rightarrow> real" where
  "perm_distortion ref infr criterion p b =
     (\<Sum>i\<leftarrow>[0..<length ref]. cval criterion (ref ! i) (infr ! (p ! i)) b) / real (length ref)"

definition is_perm :: "nat \<Rightarrow> nat list \<Rightarrow> bool" where
  "is_perm K p \<longleftrightarrow> length p = K \<and> distinct p \<and> set p = {..<K}"

definition min_distortion ::
  "'t list \<Rightarrow> 't list \<Rightarrow> ('t \<Rightarrow> 't \<Rightarrow> pyerr + real list) \<Rightarrow> nat \<Rightarrow> real" where
  "min_distortion ref infr criterion b =
     Min ((\<lambda>p. perm_distortion ref infr criterion p b) ` {p. is_perm (length ref) p})"

definition spec_pit_loss ::
  "'t list \<Rightarrow> 't list \<Rightarrow> ('t \<Rightarrow> 't \<Rightarrow> pyerr + real list) \<Rightarrow> nat \<Rightarrow> real" where
  "spec_pit_loss ref infr criterion B =
     (\<Sum>b\<leftarrow>[0..<B]. min_distortion ref infr criterion b) / real B"

text \<open>
  Well-formed inputs: \<open>K \<ge> 1\<close> references, as many hypotheses, a non-empty batch of
  \<open>B\<close> elements, and a criterion that returns a tensor of shape (B) on every pair.
\<close>

definition pit_inputs_ok ::
  "'t list \<Rightarrow> 't list \<Rightarrow> ('t \<Rightarrow> 't \<Rightarrow> pyerr + real list) \<Rightarrow> nat \<Rightarrow> bool" where
  "pit_inputs_ok ref infr criterion B \<longleftrightarrow>
     ref \<noteq> [] \<and> length infr = length ref \<and> 0 < B \<and>
     (\<forall>r \<in> set ref. \<forall>h \<in> set infr. \<exists>v. criterion r h = Inr v \<and> length v = B)"

text \<open>
  The loss of the identity assignment: the batch mean of
  \<open>(1/K) * sum_i criterion(ref_i, hyp_i)\<close>.
\<close>

definition identity_loss ::
  "'t list \<Rightarrow> 't list \<Rightarrow> ('t \<Rightarrow> 't \<Rightarrow> pyerr + real list) \<Rightarrow> nat \<Rightarrow> real" where
  "identity_loss ref infr criterion B =
     (\<Sum>b\<leftarrow>[0..<B].
        (\<Sum>i\<leftarrow>[0..<length ref]. cval criterion (ref ! i) (infr ! i) b) / real (length ref))
     / real B"

text \<open>
  The loss of the permutations that a supplied index tensor selects, one per batch element.
\<close>

definition selected_loss ::
  "'t list \<Rightarrow> 't list \<Rightarrow> ('t \<Rightarrow> 't \<Rightarrow> pyerr + real list) \<Rightarrow> int list \<Rightarrow> real" where
  "selected_loss ref infr criterion perm =
     (\<Sum>b\<leftarrow>[0..<length perm].
        perm_distortion ref infr criterion (permutations [0..<length ref] ! nat (perm ! b)) b)
     / real (length perm)"

text \<open>
  A criterion to run the model on: the squared error of each batch element, for signals
  that hold one sample per batch element.
\<close>

definition sq_err :: "real list \<Rightarrow> real list \<Rightarrow> pyerr + real list" where
  "sq_err r h =
     (if length r = length h then Inr (map2 (\<lambda>x y. (x - y) ^ 2) r h) else Inl RuntimeError)"

text \<open>
  Reordering the hypothesis list by a permutation \<open>sigma\<close>: position \<open>j\<close> of the new list
  holds hypothesis \<open>sigma(j)\<close>. \<open>compose_perm sigma p\<close> is the assignment \<open>i \<mapsto> sigma(p(i))\<close>.
\<close>

definition permute_hyps :: "nat list \<Rightarrow> 't list \<Rightarrow> 't list" where
  "permute_hyps sigma infr = map (\<lambda>j. infr ! (sigma ! j)) [0..<length infr]"

definition compose_perm :: "nat list \<Rightarrow> nat list \<Rightarrow> nat list" where
  "compose_perm sigma p = map (\<lambda>j. sigma ! j) p"

section \<open>DNN\_Beamformer\<close>

text \<open>
  The tensors that \<open>DNN_Beamformer.forward\<close> passes around are kept abstract: \<open>'d\<close> the
  multichannel signal, \<open>'m\<close> a mask, \<open>'p\<close> a tensor of covariance matrices (added with
  \<open>+\<close>), \<open>'i\<close> an inverse-power tensor, \<open>'u\<close> a reference vector, \<open>'w\<close> a filter, \<open>'e\<close> an
  enhanced signal. The functions the module imports and its two submodules are the fields
  of \<open>beamformer_ops\<close>; the source calls them, it does not define them.
\<close>

record ('d, 'm, 'p, 'i, 'u, 'w, 'e) beamformer_ops =
  permute_data :: "'d \<Rightarrow> 'd"
  mask_estimator :: "'d \<Rightarrow> int list \<Rightarrow> pyerr + 'm list"
  attention_reference :: "'p \<Rightarrow> int list \<Rightarrow> pyerr + 'u"
  onehot_reference :: "'d \<Rightarrow> int \<Rightarrow> pyerr + 'u"
  get_power_spectral_density_matrix :: "'d \<Rightarrow> 'm \<Rightarrow> 'p"
  observed_covariance :: "'d \<Rightarrow> 'p"
  inverse_power :: "'d \<Rightarrow> 'm \<Rightarrow> real \<Rightarrow> 'i"
  get_covariances :: "'d \<Rightarrow> 'i \<Rightarrow> int \<Rightarrow> int \<Rightarrow> 'p"
  get_mvdr_vector :: "'p \<Rightarrow> 'p \<Rightarrow> 'u \<Rightarrow> 'w"
  apply_beamforming_vector :: "'w \<Rightarrow> 'd \<Rightarrow> 'e"
  get_WPD_filter_v2 :: "'p \<Rightarrow> 'p \<Rightarrow> 'u \<Rightarrow> 'w"
  perform_WPD_filtering :: "'w \<Rightarrow> 'd \<Rightarrow> int \<Rightarrow> int \<Rightarrow> 'e"
  transpose_enhanced :: "'e \<Rightarrow> 'e"

text \<open>The attributes that \<open>DNN_Beamformer.__init__\<close> sets.\<close>

record dnn_beamformer =
  ref_channel :: int
  nmask :: int
  beamformer_type :: string
  eps :: real
  btaps :: int
  bdelay :: int

text \<open>
  \<open>DNN_Beamformer.__init__\<close>. The two submodules are built first (\<open>mask_init\<close> and
  \<open>ref_init\<close> are the outcomes of their constructors), then the beamformer type is checked.
\<close>

definition DNN_Beamformer_init ::
  "pyerr + unit \<Rightarrow> pyerr + unit \<Rightarrow> int \<Rightarrow> int \<Rightarrow> string \<Rightarrow> real \<Rightarrow> int \<Rightarrow> int
     \<Rightarrow> pyerr + dnn_beamformer" where
  "DNN_Beamformer_init mask_init ref_init bnmask ref_channel' beamformer_type' eps' btaps' bdelay' =
     (case mask_init of
        Inl e \<Rightarrow> Inl e
      | Inr _ \<Rightarrow>
          (case ref_init of
             Inl e \<Rightarrow> Inl e
           | Inr _ \<Rightarrow>
               if beamformer_type' \<notin> set [''mvdr'', ''mpdr'', ''wpd'']
               then Inl (ValueError (''Not supporting beamformer_type='' @ beamformer_type'))
               else Inr \<lparr>ref_channel = ref_channel', nmask = bnmask,
                         beamformer_type = beamformer_type', eps = eps',
                         btaps = btaps', bdelay = bdelay'\<rparr>))"

text \<open>The inner function \<open>apply_beamforming\<close> of \<open>forward\<close>; it returns \<open>(enhanced, ws)\<close>.\<close>

definition apply_beamforming ::
  "('d, 'm, 'p, 'i, 'u, 'w, 'e) beamformer_ops \<Rightarrow> dnn_beamformer \<Rightarrow> 'd \<Rightarrow> int list
     \<Rightarrow> 'p \<Rightarrow> 'p \<Rightarrow> string \<Rightarrow> pyerr + 'e \<times> 'w" where
  "apply_beamforming ops self data ilens psd_speech psd_n beamformer_type' =
     (case (if ref_channel self < 0 then attention_reference ops psd_speech ilens
            else onehot_reference ops data (ref_channel self)) of
        Inl e \<Rightarrow> Inl e
      | Inr u \<Rightarrow>
          if beamformer_type' \<in> set [''mpdr'', ''mvdr'']
          then (let ws = get_mvdr_vector ops psd_speech psd_n u
                in Inr (apply_beamforming_vector ops ws data, ws))
          else if beamformer_type' = ''wpd''
          then (let ws = get_WPD_filter_v2 ops psd_speech psd_n u
                in Inr (perform_WPD_filtering ops ws data (bdelay self) (btaps self), ws))
          else Inl (ValueError (''Not supporting beamformer_type='' @ beamformer_type')))"

text \<open>Python's \<open>sum\<close> of a list of tensors: \<open>((0 + t0) + t1) + ...\<close>.\<close>

definition py_sum :: "'p::monoid_add list \<Rightarrow> 'p" where
  "py_sum ts = foldl (+) 0 ts"

text \<open>
  The interference statistics computed before the loop over the speakers: one tensor for
  \<open>mvdr\<close> and \<open>mpdr\<close>, a list with one tensor per speaker for \<open>wpd\<close>.
\<close>

datatype 'p noise_psd = Shared 'p | PerSpeaker "'p list"

definition multi_psd_n ::
  "('d, 'm, 'p, 'i, 'u, 'w, 'e) beamformer_ops \<Rightarrow> dnn_beamformer \<Rightarrow> 'd \<Rightarrow> 'm list \<Rightarrow> 'm
     \<Rightarrow> pyerr + 'p noise_psd" where
  "multi_psd_n ops self data mask_speech mask_noise =
     (if beamformer_type self = ''mvdr''
      then Inr (Shared (get_power_spectral_density_matrix ops data mask_noise))
      else if beamformer_type self = ''mpdr''
      then Inr (Shared (observed_covariance ops data))
      else if beamformer_type self = ''wpd''
      then Inr (PerSpeaker
                 (map (\<lambda>inv_ps. get_covariances ops data inv_ps (bdelay self) (btaps self))
                      (map (\<lambda>mask. inverse_power ops data mask (eps self)) mask_speech)))
      else Inl (ValueError (''Not supporting beamformer_type='' @ beamformer_type self)))"

text \<open>
  One round of the loop \<open>for i in range(self.nmask - 1)\<close>: \<open>psd_speeches.pop(i)\<close>, the
  choice of the two covariances handed to \<open>apply_beamforming\<close>, and
  \<open>psd_speeches.insert(i, psd_speech)\<close>. It returns the pair of covariances and the list
  as the round leaves it.
\<close>

definition speaker_design ::
  "dnn_beamformer \<Rightarrow> 'p::monoid_add noise_psd \<Rightarrow> 'p list \<Rightarrow> nat
     \<Rightarrow> pyerr + ('p \<times> 'p) \<times> 'p list" where
  "speaker_design self psd_n psd_speeches i =
     (if i < length psd_speeches then
        (let psd_speech = psd_speeches ! i;
             popped = take i psd_speeches @ drop (Suc i) psd_speeches;
             restored = take i popped @ psd_speech # drop i popped
         in if beamformer_type self = ''mvdr''
            then (case psd_n of
                    Shared n \<Rightarrow> Inr ((psd_speech, py_sum popped + n), restored)
                  | PerSpeaker ns \<Rightarrow> Inl TypeError)
            else if beamformer_type self = ''mpdr''
            then (case psd_n of
                    Shared n \<Rightarrow> Inr ((psd_speech, n), restored)
                  | PerSpeaker ns \<Rightarrow> Inl TypeError)
            else if beamformer_type self = ''wpd''
            then (case psd_n of
                    PerSpeaker ns \<Rightarrow>
                      if i < length ns then Inr ((psd_speech, ns ! i), restored)
                      else Inl IndexError
                  | Shared n \<Rightarrow> Inl TypeError)
            else Inl (ValueError (''Not supporting beamformer_type='' @ beamformer_type self)))
      else Inl IndexError)"

text \<open>
  The loop itself, over the indices still to visit: every round appends the transposed
  enhanced signal to \<open>enhanced\<close>. The list \<open>ws\<close> of the filters is filled by the source
  and never read, and \<open>mask_speech\<close> is a copy of \<open>masks[:-1]\<close>, so neither is kept.
\<close>

fun speaker_loop ::
  "('d, 'm, 'p::monoid_add, 'i, 'u, 'w, 'e) beamformer_ops \<Rightarrow> dnn_beamformer \<Rightarrow> 'd \<Rightarrow> int list
     \<Rightarrow> 'p noise_psd \<Rightarrow> 'p list \<Rightarrow> nat list \<Rightarrow> pyerr + 'e list" where
  "speaker_loop ops self data ilens psd_n psd_speeches [] = Inr []"
| "speaker_loop ops self data ilens psd_n psd_speeches (i # rest) =
     (case speaker_design self psd_n psd_speeches i of
        Inl e \<Rightarrow> Inl e
      | Inr ((psd_speech, interference), psd_speeches') \<Rightarrow>
          (case apply_beamforming ops self data ilens psd_speech interference
                  (beamformer_type self) of
             Inl e \<Rightarrow> Inl e
           | Inr (enh, w) \<Rightarrow>
               (case speaker_loop ops self data ilens psd_n psd_speeches' rest of
                  Inl e \<Rightarrow> Inl e
                | Inr enhanced \<Rightarrow> Inr (transpose_enhanced ops enh # enhanced))))"

datatype 'e enhanced_out = Single 'e | Multi "'e list"

text \<open>
  \<open>DNN_Beamformer.forward\<close>; it returns \<open>(enhanced, ilens, masks)\<close>, with \<open>enhanced\<close> one
  signal when there are two masks and a list of signals, one per speaker, otherwise.
\<close>

definition forward ::
  "('d, 'm, 'p::monoid_add, 'i, 'u, 'w, 'e) beamformer_ops \<Rightarrow> dnn_beamformer \<Rightarrow> 'd \<Rightarrow> int list
     \<Rightarrow> pyerr + 'e enhanced_out \<times> int list \<times> 'm list" where
  "forward ops self data0 ilens =
     (let data = permute_data ops data0 in
      case mask_estimator ops data ilens of
        Inl e \<Rightarrow> Inl e
      | Inr masks \<Rightarrow>
          if nmask self \<noteq> int (length masks) then Inl AssertionError
          else if nmask self = 2 then
            (let mask_speech = masks ! 0; mask_noise = masks ! 1;
                 psd_speech = get_power_spectral_density_matrix ops data mask_speech
             in case (if beamformer_type self = ''mvdr''
                      then Inr (get_power_spectral_density_matrix ops data mask_noise)
                      else if beamformer_type self = ''mpdr''
                      then Inr (observed_covariance ops data)
                      else if beamformer_type self = ''wpd''
                      then Inr (get_covariances ops data
                                  (inverse_power ops data mask_speech (eps self))
                                  (bdelay self) (btaps self))
                      else Inl (ValueError
                                  (''Not supporting beamformer_type='' @ beamformer_type self))) of
                  Inl e \<Rightarrow> Inl e
                | Inr psd_n \<Rightarrow>
                    (case apply_beamforming ops self data ilens psd_speech psd_n
                            (beamformer_type self) of
                       Inl e \<Rightarrow> Inl e
                     | Inr (enhanced, ws) \<Rightarrow>
                         Inr (Single (transpose_enhanced ops enhanced), ilens, masks)))
          else if masks = [] then Inl IndexError
          else
            (let mask_speech = butlast masks; mask_noise = last masks;
                 psd_speeches = map (get_power_spectral_density_matrix ops data) mask_speech
             in case multi_psd_n ops self data mask_speech mask_noise of
                  Inl e \<Rightarrow> Inl e
                | Inr psd_n \<Rightarrow>
                    (case speaker_loop ops self data ilens psd_n psd_speeches
                            [0..<nat (nmask self - 1)] of
                       Inl e \<Rightarrow> Inl e
                     | Inr enhanced \<Rightarrow> Inr (Multi enhanced, ilens, masks))))"

section \<open>What the specification says about the filter design\<close>

text \<open>
  The covariances of all speakers but the \<open>i\<close>-th, and the interference covariance that
  the specification describes for every beamformer type: the sum of the other speakers'
  covariances plus the covariance of the noise mask.
\<close>

definition others :: "nat \<Rightarrow> 'a list \<Rightarrow> 'a list" where
  "others i xs = take i xs @ drop (Suc i) xs"

definition claimed_interference ::
  "('d, 'm, 'p::monoid_add, 'i, 'u, 'w, 'e) beamformer_ops \<Rightarrow> 'd \<Rightarrow> 'm list \<Rightarrow> nat \<Rightarrow> 'p" where
  "claimed_interference ops data masks i =
     py_sum (others i (map (get_power_spectral_density_matrix ops data) (butlast masks)))
       + get_power_spectral_density_matrix ops data (last masks)"

text \<open>
  An instance to run \<open>forward\<close> on. It computes nothing: a mask is its name, a covariance
  is the multiset of the names of the statistics added up in it, and every function that
  the module imports returns the term of its call, with the arguments it was given. What
  \<open>forward\<close> returns on this instance therefore spells out, for each speaker, the
  covariances and the reference vector that the filter was designed from and the signal
  that the filter was applied to.
\<close>

datatype sym_data = Signal | Permuted sym_data

datatype sym_ref = Attention "string multiset" | OneHot int

datatype sym_filter =
    MVDR_vector "string multiset" "string multiset" sym_ref
  | WPD_filter "string multiset" "string multiset" sym_ref

datatype sym_signal =
    Beamformed sym_filter sym_data
  | WPD_filtered sym_filter sym_data int int
  | Transposed sym_signal

definition sym_ops ::
  "string list \<Rightarrow> (sym_data, string, string multiset, string, sym_ref, sym_filter, sym_signal)
     beamformer_ops" where
  "sym_ops estimated_masks =
     \<lparr>permute_data = Permuted,
      mask_estimator = (\<lambda>d ilens. Inr estimated_masks),
      attention_reference = (\<lambda>p ilens. Inr (Attention p)),
      onehot_reference = (\<lambda>d c. Inr (OneHot c)),
      get_power_spectral_density_matrix = (\<lambda>d msk. {#msk#}),
      observed_covariance = (\<lambda>d. {#''observed''#}),
      inverse_power = (\<lambda>d msk e. msk),
      get_covariances = (\<lambda>d ip delay taps. {#''expanded, weighted by 1/power of '' @ ip#}),
      get_mvdr_vector = MVDR_vector,
      apply_beamforming_vector = Beamformed,
      get_WPD_filter_v2 = WPD_filter,
      perform_WPD_filtering = WPD_filtered,
      transpose_enhanced = Transposed\<rparr>"

section \<open>Mask labels\<close>

text \<open>
  A spectrum is the list of its complex entries, a real mask the list of its real entries.
  Two tensors combine entrywise when they have as many entries; a tensor of one entry is
  broadcast; anything else is a RuntimeError.
\<close>

definition tensor_op :: "('a \<Rightarrow> 'b \<Rightarrow> 'c) \<Rightarrow> 'a list \<Rightarrow> 'b list \<Rightarrow> pyerr + 'c list" where
  "tensor_op f a b =
     (if length a = length b then Inr (map2 f a b)
      else if length a = 1 then Inr (map (\<lambda>y. f (hd a) y) b)
      else if length b = 1 then Inr (map (\<lambda>x. f x (hd b)) a)
      else Inl RuntimeError)"

text \<open>\<open>x.clamp(min=lo, max=hi)\<close> on one entry.\<close>

definition clamp :: "real \<Rightarrow> real \<Rightarrow> real \<Rightarrow> real" where
  "clamp lo hi x = min (max x lo) hi"

text \<open>
  What Python's \<open>==\<close> sees in \<open>mask_label == "NPSM"\<close>: a string or a list. A list and a
  string are never equal.
\<close>

datatype 'a pyval = PyStr string | PyList "'a list"

fun py_eq :: "'a pyval \<Rightarrow> 'a pyval \<Rightarrow> bool" where
  "py_eq (PyStr s) (PyStr t) = (s = t)"
| "py_eq (PyList xs) (PyList ys) = (xs = ys)"
| "py_eq (PyStr s) (PyList ys) = False"
| "py_eq (PyList xs) (PyStr t) = False"

text \<open>\<open>eps = 10e-8\<close> of \<open>_create_mask_label\<close>.\<close>

definition mask_eps :: real where
  "mask_eps = 1 / 10 ^ 7"

text \<open>
  The entries of the phase-sensitive mask before it is clamped:
  \<open>(abs(r) / (abs(mix_spec) + eps)) * cos_theta\<close> with
  \<open>cos_theta = phase_r.real * phase_mix.real + phase_r.imag * phase_mix.imag\<close>.
\<close>

definition cos_theta :: "complex \<Rightarrow> complex \<Rightarrow> real" where
  "cos_theta r mix =
     (let phase_r = r / complex_of_real (cmod r + mask_eps);
          phase_mix = mix / complex_of_real (cmod mix + mask_eps)
      in Re phase_r * Re phase_mix + Im phase_r * Im phase_mix)"

definition psm_entry :: "complex \<Rightarrow> complex \<Rightarrow> real" where
  "psm_entry r mix = (cmod r / (cmod mix + mask_eps)) * cos_theta r mix"

definition psm2_entry :: "complex \<Rightarrow> complex \<Rightarrow> real" where
  "psm2_entry r mix = ((cmod r)\<^sup>2 / ((cmod mix)\<^sup>2 + mask_eps)) * cos_theta r mix"

text \<open>\<open>reduce(lambda x, y: x * y, flags)\<close> on boolean tensors; an empty list is a TypeError.\<close>

fun reduce_flags :: "bool list \<Rightarrow> bool list list \<Rightarrow> pyerr + bool list" where
  "reduce_flags acc [] = Inr acc"
| "reduce_flags acc (f # fs) =
     (case tensor_op (\<and>) acc f of Inl e \<Rightarrow> Inl e | Inr acc' \<Rightarrow> reduce_flags acc' fs)"

definition ibm_mask :: "complex list list \<Rightarrow> complex list \<Rightarrow> pyerr + real list" where
  "ibm_mask ref_spec r =
     (case sequence_err (map (\<lambda>n. tensor_op (\<lambda>a b. cmod a \<ge> cmod b) r n) ref_spec) of
        Inl e \<Rightarrow> Inl e
      | Inr [] \<Rightarrow> Inl TypeError
      | Inr (f # fs) \<Rightarrow>
          (case reduce_flags f fs of
             Inl e \<Rightarrow> Inl e
           | Inr flags \<Rightarrow> Inr (map (\<lambda>b. if b then 1 else 0) flags)))"

definition irm_mask :: "complex list list \<Rightarrow> complex list \<Rightarrow> pyerr + real list" where
  "irm_mask ref_spec r =
     (case map (map cmod) ref_spec of
        [] \<Rightarrow> Inr (map (\<lambda>x. cmod x / (0 + mask_eps)) r)
      | n # ns \<Rightarrow>
          (case tensor_sum n ns of
             Inl e \<Rightarrow> Inl e
           | Inr s \<Rightarrow> tensor_op (\<lambda>x d. cmod x / (d + mask_eps)) r s))"

text \<open>
  The body of the loop \<open>for r in ref_spec\<close> of \<open>ESPnetEnhancementModel._create_mask_label\<close>:
  the mask of one reference. \<open>mask_label\<close> is the list of the masks built so far.
\<close>

definition mask_of_ref ::
  "string \<Rightarrow> complex list \<Rightarrow> complex list list \<Rightarrow> real list list \<Rightarrow> complex list
     \<Rightarrow> pyerr + real list" where
  "mask_of_ref mask_type mix_spec ref_spec mask_label r =
     (if mask_type = ''IBM'' then ibm_mask ref_spec r
      else if mask_type = ''IRM'' then irm_mask ref_spec r
      else if mask_type = ''IAM''
      then (case tensor_op (\<lambda>x m. cmod x / (cmod m + mask_eps)) r mix_spec of
              Inl e \<Rightarrow> Inl e
            | Inr msk \<Rightarrow> Inr (map (clamp 0 1) msk))
      else if mask_type = ''PSM'' \<or> mask_type = ''NPSM''
      then (case tensor_op psm_entry r mix_spec of
              Inl e \<Rightarrow> Inl e
            | Inr msk \<Rightarrow>
                Inr (if py_eq (PyList mask_label) (PyStr ''NPSM'')
                     then map (clamp 0 1) msk
                     else map (clamp (- 1) 1) msk))
      else if mask_type = ''PSM^2''
      then (case tensor_op psm2_entry r mix_spec of
              Inl e \<Rightarrow> Inl e
            | Inr msk \<Rightarrow> Inr (map (clamp (- 1) 1) msk))
      else Inl AssertionError)"

text \<open>The loop: every mask is appended to \<open>mask_label\<close>.\<close>

fun mask_loop ::
  "('m list \<Rightarrow> 'r \<Rightarrow> pyerr + 'm) \<Rightarrow> 'r list \<Rightarrow> 'm list \<Rightarrow> pyerr + 'm list" where
  "mask_loop body [] mask_label = Inr mask_label"
| "mask_loop body (r # rs) mask_label =
     (case body mask_label r of
        Inl e \<Rightarrow> Inl e
      | Inr msk \<Rightarrow> mask_loop body rs (mask_label @ [msk]))"

text \<open>\<open>ESPnetEnhancementModel._create_mask_label(mix_spec, ref_spec, mask_type)\<close>.\<close>

definition create_mask_label ::
  "complex list \<Rightarrow> complex list list \<Rightarrow> string \<Rightarrow> pyerr + real list list" where
  "create_mask_label mix_spec ref_spec mask_type =
     (if mask_type \<notin> set [''IBM'', ''IRM'', ''IAM'', ''PSM'', ''NPSM'', ''PSM^2'']
      then Inl AssertionError
      else mask_loop (mask_of_ref mask_type mix_spec ref_spec) ref_spec [])"

text \<open>
  \<open>ESPnetFrontendModel._create_mask_label\<close>: the same but for the last mask type, \<open>ICM\<close>,
  whose mask is complex.
\<close>

datatype mask_tensor = RealMask "real list" | ComplexMask "complex list"

definition icm_entry :: "complex \<Rightarrow> complex \<Rightarrow> complex" where
  "icm_entry r mix =
     (let m = r / (mix + complex_of_real mask_eps)
      in Complex (clamp (- 1) 1 (Re m)) (clamp (- 1) 1 (Im m)))"

definition frontend_mask_of_ref ::
  "string \<Rightarrow> complex list \<Rightarrow> complex list list \<Rightarrow> mask_tensor list \<Rightarrow> complex list
     \<Rightarrow> pyerr + mask_tensor" where
  "frontend_mask_of_ref mask_type mix_spec ref_spec mask_label r =
     (if mask_type = ''IBM'' then map_sum id RealMask (ibm_mask ref_spec r)
      else if mask_type = ''IRM'' then map_sum id RealMask (irm_mask ref_spec r)
      else if mask_type = ''IAM''
      then (case tensor_op (\<lambda>x m. cmod x / (cmod m + mask_eps)) r mix_spec of
              Inl e \<Rightarrow> Inl e
            | Inr msk \<Rightarrow> Inr (RealMask (map (clamp 0 1) msk)))
      else if mask_type = ''PSM'' \<or> mask_type = ''NPSM''
      then (case tensor_op psm_entry r mix_spec of
              Inl e \<Rightarrow> Inl e
            | Inr msk \<Rightarrow>
                Inr (RealMask (if py_eq (PyList mask_label) (PyStr ''NPSM'')
                               then map (clamp 0 1) msk
                               else map (clamp (- 1) 1) msk)))
      else if mask_type = ''ICM''
      then (case tensor_op icm_entry r mix_spec of
              Inl e \<Rightarrow> Inl e
            | Inr msk \<Rightarrow> Inr (ComplexMask msk))
      else Inl AssertionError)"

definition frontend_create_mask_label ::
  "complex list \<Rightarrow> complex list list \<Rightarrow> string \<Rightarrow> pyerr + mask_tensor list" where
  "frontend_create_mask_label mix_spec ref_spec mask_type =
     (if mask_type \<notin> set [''IBM'', ''IRM'', ''IAM'', ''PSM'', ''NPSM'', ''ICM'']
      then Inl AssertionError
      else mask_loop (frontend_mask_of_ref mask_type mix_spec ref_spec) ref_spec [])"

section \<open>The reference vector\<close>

text \<open>
  A four-dimensional tensor is its shape and its entries. Entries of the tensors computed
  here are reals or NaN: \<open>scalar\<close> for real tensors, \<open>cscalar\<close> for a complex tensor, whose
  real and imaginary parts turn NaN together in the one division that can produce it.
\<close>

type_synonym 'a tensor4 = "(nat \<times> nat \<times> nat \<times> nat) \<times> (nat \<Rightarrow> nat \<Rightarrow> nat \<Rightarrow> nat \<Rightarrow> 'a)"

datatype cscalar = CFinite complex | CNaN

text \<open>The real entries of a row, when none of them is NaN.\<close>

fun finite_values :: "scalar list \<Rightarrow> real list option" where
  "finite_values [] = Some []"
| "finite_values (NaN # xs) = None"
| "finite_values (Finite r # xs) = map_option ((#) r) (finite_values xs)"

text \<open>
  The parameters of \<open>AttentionReference\<close>: the two linear layers
  \<open>mlp_psd = Linear(bidim, att_dim)\<close> and \<open>gvec = Linear(att_dim, 1)\<close>.
\<close>

record attention_reference =
  bidim :: nat
  att_dim :: nat
  mlp_weight :: "nat \<Rightarrow> nat \<Rightarrow> real"
  mlp_bias :: "nat \<Rightarrow> real"
  gvec_weight :: "nat \<Rightarrow> real"
  gvec_bias :: real

text \<open>
  One output of a linear layer, \<open>sum_k w_k * x_k + b\<close>: NaN as soon as one input is NaN.
\<close>

definition linear_out :: "(nat \<Rightarrow> real) \<Rightarrow> real \<Rightarrow> scalar list \<Rightarrow> scalar" where
  "linear_out w b xs =
     (case finite_values xs of
        None \<Rightarrow> NaN
      | Some rs \<Rightarrow> Finite ((\<Sum>k\<leftarrow>[0..<length rs]. w k * rs ! k) + b))"

fun scalar_tanh :: "scalar \<Rightarrow> scalar" where
  "scalar_tanh (Finite r) = Finite (tanh r)"
| "scalar_tanh NaN = NaN"

fun scalar_scale :: "real \<Rightarrow> scalar \<Rightarrow> scalar" where
  "scalar_scale s (Finite r) = Finite (s * r)"
| "scalar_scale s NaN = NaN"

text \<open>\<open>(psd.real ** 2 + psd.imag ** 2) ** 0.5\<close> on one entry.\<close>

fun amplitude :: "cscalar \<Rightarrow> scalar" where
  "amplitude (CFinite z) = Finite (sqrt ((Re z)\<^sup>2 + (Im z)\<^sup>2))"
| "amplitude CNaN = NaN"

text \<open>\<open>F.softmax(row, dim=-1)\<close>: one NaN in the row makes every output NaN.\<close>

definition softmax_row :: "scalar list \<Rightarrow> scalar list" where
  "softmax_row xs =
     (case finite_values xs of
        None \<Rightarrow> map (\<lambda>x. NaN) xs
      | Some rs \<Rightarrow> map (\<lambda>x. Finite (exp x / (\<Sum>y\<leftarrow>rs. exp y))) rs)"

text \<open>
  \<open>psd_in.masked_fill(eye(C), 0).sum(dim=-1) / (C - 1)\<close> at batch element \<open>b\<close>, frequency
  \<open>f\<close> and channel \<open>c\<close>: the sum of the off-diagonal entries of row \<open>c\<close>, divided by
  \<open>C - 1\<close>. Nothing guards the division. When \<open>C - 1 = 0\<close> the row holds only its masked
  diagonal entry, the sum is \<open>0\<close> and the quotient \<open>0 / 0\<close> is NaN.
\<close>

definition offdiag_sum :: "complex tensor4 \<Rightarrow> nat \<Rightarrow> nat \<Rightarrow> nat \<Rightarrow> complex" where
  "offdiag_sum psd_in b f c =
     (case psd_in of
        ((B, F, C, C'), entry) \<Rightarrow> (\<Sum>e\<leftarrow>[0..<C']. if e = c then 0 else entry b f c e))"

definition offdiag_mean :: "complex tensor4 \<Rightarrow> nat \<Rightarrow> nat \<Rightarrow> nat \<Rightarrow> cscalar" where
  "offdiag_mean psd_in b f c =
     (case psd_in of
        ((B, F, C, C'), entry) \<Rightarrow>
          if int C - 1 = 0 then CNaN
          else CFinite (offdiag_sum psd_in b f c / complex_of_int (int C - 1)))"

text \<open>
  \<open>AttentionReference.forward(psd_in, ilens, scaling)\<close> for \<open>psd_in\<close> of shape
  \<open>(B, F, C, C)\<close>; the result \<open>u\<close> has shape \<open>(B, C)\<close>.
\<close>

definition AttentionReference_forward ::
  "attention_reference \<Rightarrow> complex tensor4 \<Rightarrow> int list \<Rightarrow> real
     \<Rightarrow> pyerr + scalar list list \<times> int list" where
  "AttentionReference_forward self psd_in ilens scaling =
     (case psd_in of
        ((B, F, C, C'), entry) \<Rightarrow>
          if C \<noteq> C' then Inl AssertionError
          else if F \<noteq> bidim self then Inl RuntimeError
          else
            (let psd_feat = (\<lambda>b c. map (\<lambda>f. amplitude (offdiag_mean psd_in b f c)) [0..<F]);
                 mlp_psd = (\<lambda>b c. map (\<lambda>j. linear_out (mlp_weight self j) (mlp_bias self j)
                                                  (psd_feat b c))
                                        [0..<att_dim self]);
                 e = (\<lambda>b c. linear_out (gvec_weight self) (gvec_bias self)
                                 (map scalar_tanh (mlp_psd b c)));
                 u = map (\<lambda>b. softmax_row (map (\<lambda>c. scalar_scale scaling (e b c)) [0..<C]))
                         [0..<B]
             in Inr (u, ilens)))"

text \<open>
  The fixed reference of \<open>apply_beamforming\<close>: \<open>u = torch.zeros(B, C)\<close> followed by
  \<open>u[..., self.ref_channel].fill_(1)\<close>. The branch is taken for \<open>ref_channel \<ge> 0\<close>; an index
  beyond the last channel is an IndexError.
\<close>

definition onehot_vector :: "nat \<Rightarrow> nat \<Rightarrow> int \<Rightarrow> pyerr + scalar list list" where
  "onehot_vector B C ref_ch =
     (if ref_ch < - int C \<or> int C \<le> ref_ch then Inl IndexError
      else Inr (replicate B
                  (map (\<lambda>c. Finite (if int c = (if ref_ch < 0 then int C + ref_ch else ref_ch)
                                      then 1 else 0))
                       [0..<C])))"

text \<open>
  The reference vector \<open>u\<close> that \<open>apply_beamforming\<close> feeds to the filter design, for data
  of shape \<open>(B, F, C, T)\<close>: \<open>self.ref(psd_speech, ilens)\<close> with the default \<open>scaling = 2.0\<close>
  when \<open>ref_channel < 0\<close>, the one-hot vector otherwise.
\<close>

definition reference_vector ::
  "attention_reference \<Rightarrow> dnn_beamformer \<Rightarrow> nat \<times> nat \<times> nat \<times> nat \<Rightarrow> complex tensor4
     \<Rightarrow> int list \<Rightarrow> pyerr + scalar list list" where
  "reference_vector att self data_size psd_speech ilens =
     (case data_size of
        (B, F, C, T) \<Rightarrow>
          if ref_channel self < 0
          then (case AttentionReference_forward att psd_speech ilens 2 of
                  Inl e \<Rightarrow> Inl e
                | Inr (u, _) \<Rightarrow> Inr u)
          else onehot_vector B C (ref_channel self))"

text \<open>
  What the specification asks of a reference vector over \<open>C\<close> channels: real, non-negative
  entries that sum to \<open>1\<close>.
\<close>

fun scalar_sum :: "scalar list \<Rightarrow> scalar" where
  "scalar_sum [] = Finite 0"
| "scalar_sum (x # xs) =
     (case (x, scalar_sum xs) of
        (Finite a, Finite b) \<Rightarrow> Finite (a + b)
      | _ \<Rightarrow> NaN)"

fun nonneg_scalar :: "scalar \<Rightarrow> bool" where
  "nonneg_scalar (Finite r) = (0 \<le> r)"
| "nonneg_scalar NaN = False"

definition is_reference_row :: "nat \<Rightarrow> scalar list \<Rightarrow> bool" where
  "is_reference_row C row \<longleftrightarrow>
     length row = C \<and> list_all nonneg_scalar row \<and> scalar_sum row = Finite 1"

text \<open>A layer whose weights and biases are all zero, and a tensor whose entries are all one.\<close>

definition zero_attention :: "nat \<Rightarrow> nat \<Rightarrow> attention_reference" where
  "zero_attention F A =
     \<lparr>bidim = F, att_dim = A, mlp_weight = (\<lambda>j k. 0), mlp_bias = (\<lambda>j. 0),
      gvec_weight = (\<lambda>j. 0), gvec_bias = 0\<rparr>"

definition ones_tensor :: "nat \<Rightarrow> nat \<Rightarrow> nat \<Rightarrow> complex tensor4" where
  "ones_tensor B F C = ((B, F, C, C), (\<lambda>b f c e. 1))"

section \<open>ESPnetEnhancementModel.forward\<close>

text \<open>Sequencing of steps that can raise.\<close>

definition bind_err :: "'e + 'a \<Rightarrow> ('a \<Rightarrow> 'e + 'b) \<Rightarrow> 'e + 'b" where
  "bind_err m k = (case m of Inl e \<Rightarrow> Inl e | Inr v \<Rightarrow> k v)"

text \<open>Strings: \<open>str(n)\<close>, \<open>s.startswith(p)\<close> and \<open>p in s\<close>.\<close>

function str_of_nat :: "nat \<Rightarrow> string" where
  "str_of_nat n =
     (if n < 10 then [''0123456789'' ! n]
      else str_of_nat (n div 10) @ [''0123456789'' ! (n mod 10)])"
  by pat_completeness auto
termination
  by (relation "measure (\<lambda>n. n)") auto

definition startswith :: "string \<Rightarrow> string \<Rightarrow> bool" where
  "startswith s p \<longleftrightarrow> take (length p) s = p"

definition str_contains :: "string \<Rightarrow> string \<Rightarrow> bool" where
  "str_contains p s \<longleftrightarrow> list_ex (\<lambda>i. startswith (drop i s) p) [0..<Suc (length s)]"

text \<open>\<open>kwargs[key]\<close>: a missing key is a KeyError.\<close>

definition lookup :: "(string \<rightharpoonup> 'v) \<Rightarrow> string \<Rightarrow> pyerr + 'v" where
  "lookup d key = (case d key of None \<Rightarrow> Inl (KeyError key) | Some v \<Rightarrow> Inr v)"

text \<open>Arithmetic on scalar losses.\<close>

fun scalar_add :: "scalar \<Rightarrow> scalar \<Rightarrow> scalar" where
  "scalar_add (Finite a) (Finite b) = Finite (a + b)"
| "scalar_add _ _ = NaN"

text \<open>
  The attributes of \<open>ESPnetEnhancementModel\<close> that \<open>forward\<close> reads; the three flags stand
  for \<open>isinstance(self.enh_model, TFMaskingNetCTX)\<close>, \<open>isinstance(self.enh_model, TasNetCTX)\<close>
  and \<open>self.enh_model.predict_noise\<close>.
\<close>

record enhancement_model =
  num_spk :: nat
  num_noise_type :: nat
  mask_type :: "string option"
  loss_type :: string
  model_ref_channel :: int
  use_pit :: bool
  ctx_mode :: "string option"
  ctx_factor :: real
  training :: bool
  is_TFMaskingNetCTX :: bool
  is_TasNetCTX :: bool
  predict_noise :: bool

text \<open>
  What \<open>forward\<close> calls and does not define: the tensor operations of torch on waveforms
  (\<open>'t\<close>), the networks, the transform and the loss criteria. Spectra are lists of complex
  entries, masks and magnitudes lists of real entries. \<open>prepare_lengths\<close> stands for the
  lines that fix \<open>speech_lengths\<close>, assert the shapes and crop the signals; it returns
  \<open>(speech_mix, speech_ref, speech_lengths, batch_size)\<close>.
\<close>

record 't enhancement_ops =
  stack_dim1 :: "'t list \<Rightarrow> pyerr + 't"
  unbind_dim1 :: "'t \<Rightarrow> 't list"
  crop_ctx :: "'t option list \<Rightarrow> 't \<Rightarrow> pyerr + 't option list"
  prepare_lengths :: "'t \<Rightarrow> 't \<Rightarrow> int list option \<Rightarrow> pyerr + 't \<times> 't \<times> int list \<times> nat"
  ctx_predictor :: "'t \<Rightarrow> int list \<Rightarrow> pyerr + 't list"
  ctx_loss :: "'t option \<Rightarrow> 't option \<Rightarrow> pyerr + real list"
  stft :: "'t \<Rightarrow> pyerr + complex list"
  stft_inverse :: "complex list \<Rightarrow> int list \<Rightarrow> pyerr + 't"
  enh_model_call ::
    "'t \<Rightarrow> 't option list option \<Rightarrow> int list
       \<Rightarrow> pyerr + complex list list \<times> int list \<times> (string \<rightharpoonup> real list) option"
  forward_rawwav :: "'t \<Rightarrow> 't option list option \<Rightarrow> int list \<Rightarrow> pyerr + 't list \<times> int list"
  tf_mse_loss_real :: "real list \<Rightarrow> real list \<Rightarrow> pyerr + real list"
  tf_l1_loss_real :: "real list \<Rightarrow> real list \<Rightarrow> pyerr + real list"
  tf_mse_loss_complex :: "complex list \<Rightarrow> complex list \<Rightarrow> pyerr + real list"
  tf_l1_loss_complex :: "complex list \<Rightarrow> complex list \<Rightarrow> pyerr + real list"
  si_snr_loss :: "'t \<Rightarrow> 't \<Rightarrow> pyerr + real list"
  si_snr_loss_zeromean :: "'t \<Rightarrow> 't \<Rightarrow> pyerr + real list"
  tensor_dim :: "'t \<Rightarrow> nat"
  select_channel :: "'t \<Rightarrow> int \<Rightarrow> 't"

text \<open>The permutation a call of \<open>_permutation_loss\<close> returned, passed on as \<open>perm\<close>.\<close>

fun perm_indices :: "perm_out \<Rightarrow> int list" where
  "perm_indices (PermTensor p) = p"
| "perm_indices (PermList l) = map int l"

text \<open>\<open>_psm_theta(r, mix)\<close>, with its \<open>eps = 1e-8\<close>.\<close>

definition psm_theta :: "complex list \<Rightarrow> complex list \<Rightarrow> pyerr + real list" where
  "psm_theta r mix =
     tensor_op (\<lambda>x m. Re (x / complex_of_real (cmod x + 1 / 10 ^ 8))
                        * Re (m / complex_of_real (cmod m + 1 / 10 ^ 8))
                      + Im (x / complex_of_real (cmod x + 1 / 10 ^ 8))
                        * Im (m / complex_of_real (cmod m + 1 / 10 ^ 8))) r mix"

text \<open>The message of the ValueError that reports a missing noise reference.\<close>

definition no_noise_reference :: string where
  "no_noise_reference =
     ''No noise reference for training!\<newline>Please specify '' @ [CHR 0x22]
       @ ''--use_noise_ref true'' @ [CHR 0x22] @ '' in run.sh''"

text \<open>
  The first lines of \<open>forward\<close>: the references read from \<open>kwargs\<close>. The noise reference is
  \<open>None\<close> unless \<open>kwargs\<close> holds \<open>noise_ref1\<close>.
\<close>

definition get_speech_ref ::
  "enhancement_model \<Rightarrow> 't enhancement_ops \<Rightarrow> (string \<rightharpoonup> 't) \<Rightarrow> pyerr + 't" where
  "get_speech_ref self ops kwargs =
     bind_err (sequence_err (map (\<lambda>spk. lookup kwargs (''speech_ref'' @ str_of_nat (spk + 1)))
                                 [0..<num_spk self]))
       (stack_dim1 ops)"

definition get_noise_ref ::
  "enhancement_model \<Rightarrow> 't enhancement_ops \<Rightarrow> (string \<rightharpoonup> 't) \<Rightarrow> pyerr + 't option" where
  "get_noise_ref self ops kwargs =
     (if ''noise_ref1'' \<in> dom kwargs
      then bind_err (sequence_err (map (\<lambda>n. lookup kwargs (''noise_ref'' @ str_of_nat (n + 1)))
                                       [0..<num_noise_type self]))
             (\<lambda>refs. bind_err (stack_dim1 ops refs) (\<lambda>noise_ref. Inr (Some noise_ref)))
      else Inr None)"

text \<open>
  The context: \<open>ctx_given\<close> from \<open>kwargs\<close>, the predictor and the context loss. It returns
  \<open>(ctx_feed, ctx_loss, ctx_perm)\<close>.
\<close>

definition ctx_stage ::
  "enhancement_model \<Rightarrow> 't enhancement_ops \<Rightarrow> 't \<Rightarrow> int list \<Rightarrow> 't option list
     \<Rightarrow> pyerr + 't option list \<times> scalar \<times> perm_out option" where
  "ctx_stage self ops speech_mix speech_lengths ctx_given =
     (if ctx_mode self \<in> {Some ''joint_train'', Some ''predict''}
      then bind_err (ctx_predictor ops speech_mix speech_lengths)
             (\<lambda>ctx_pre.
                if ctx_mode self = Some ''joint_train''
                then bind_err (permutation_loss ctx_given (map Some ctx_pre) (ctx_loss ops) None True)
                       (\<lambda>(l, p). Inr (map Some ctx_pre, l, Some p))
                else Inr (map Some ctx_pre, Finite 0, None))
      else Inr (ctx_given, Finite 0, None))"

text \<open>
  The loss on the time-frequency representation, one branch per \<open>loss_type\<close>. It returns
  \<open>(tf_loss, perm)\<close>.
\<close>

definition tf_loss_by_type ::
  "enhancement_model \<Rightarrow> 't enhancement_ops \<Rightarrow> complex list \<Rightarrow> complex list list
     \<Rightarrow> complex list list \<Rightarrow> (string \<rightharpoonup> real list) option \<Rightarrow> perm_out option
     \<Rightarrow> pyerr + scalar \<times> perm_out" where
  "tf_loss_by_type self ops spectrum_mix spectrum_ref spectrum_pre mask_pre ctx_perm =
     (if loss_type self = ''magnitude'' \<or> loss_type self = ''magnitude_l1'' then
        (case mask_type self of
           None \<Rightarrow> Inl TypeError
         | Some mt \<Rightarrow>
             bind_err (if str_contains ''PSM'' mt
                       then sequence_err (map (\<lambda>sr. bind_err (psm_theta sr spectrum_mix)
                                 (\<lambda>theta. tensor_op (\<lambda>x th. cmod (x + 1 / 10 ^ 8) * th) sr theta))
                               spectrum_ref)
                       else Inr (map (map (\<lambda>x. cmod (x + 1 / 10 ^ 8) * 1)) spectrum_ref))
               (\<lambda>magnitude_ref.
                  permutation_loss magnitude_ref
                    (map (map (\<lambda>x. cmod (x + 1 / 10 ^ 8))) spectrum_pre)
                    (if str_contains ''_l1'' mt then tf_l1_loss_real ops else tf_mse_loss_real ops)
                    (map_option perm_indices ctx_perm) (use_pit self)))
      else if loss_type self = ''spectrum'' \<or> loss_type self = ''spectrum_l1'' then
        (case mask_type self of
           None \<Rightarrow> Inl TypeError
         | Some mt \<Rightarrow>
             permutation_loss spectrum_ref spectrum_pre
               (if str_contains ''_l1'' mt then tf_l1_loss_complex ops else tf_mse_loss_complex ops)
               (map_option perm_indices ctx_perm) (use_pit self))
      else if startswith (loss_type self) ''mask'' then
        (if loss_type self = ''mask_mse'' then
           (case mask_pre of
              None \<Rightarrow> Inl AssertionError
            | Some md \<Rightarrow>
                bind_err (sequence_err (map (\<lambda>spk. lookup md (''spk'' @ str_of_nat (spk + 1)))
                                            [0..<num_spk self]))
                  (\<lambda>mask_pre'.
                     bind_err (case mask_type self of
                                 None \<Rightarrow> Inl AssertionError
                               | Some mt \<Rightarrow> create_mask_label spectrum_mix spectrum_ref mt)
                       (\<lambda>mask_ref.
                          permutation_loss mask_ref mask_pre' (tf_mse_loss_real ops)
                            (map_option perm_indices ctx_perm) (use_pit self))))
         else Inl (ValueError (''Unsupported loss type: '' @ loss_type self)))
      else Inl (ValueError (''Unsupported loss type: '' @ loss_type self)))"

text \<open>
  Everything \<open>forward\<close> does on the time-frequency branch (\<open>loss_type != "si_snr"\<close>) before
  it looks for \<open>noise1\<close> among the predicted masks.
\<close>

record 't tf_state =
  st_speech_ref :: "'t list"
  st_speech_lengths :: "int list"
  st_batch_size :: nat
  st_spectrum_mix :: "complex list"
  st_spectrum_pre :: "complex list list"
  st_mask_pre :: "(string \<rightharpoonup> real list) option"
  st_noise_ref :: "'t option"
  st_tf_loss :: scalar
  st_perm :: perm_out
  st_ctx_loss :: scalar

definition prepare ::
  "enhancement_model \<Rightarrow> 't enhancement_ops \<Rightarrow> 't \<Rightarrow> int list option \<Rightarrow> (string \<rightharpoonup> 't)
     \<Rightarrow> pyerr + ('t option \<times> 't \<times> 't \<times> int list \<times> nat)
               \<times> 't option list \<times> scalar \<times> perm_out option" where
  "prepare self ops speech_mix0 speech_mix_lengths kwargs =
     bind_err (get_speech_ref self ops kwargs) (\<lambda>speech_ref0.
     bind_err (get_noise_ref self ops kwargs) (\<lambda>noise_ref.
     bind_err (case kwargs ''ctx_1_lengths'' of
                 None \<Rightarrow> Inr (map (\<lambda>spk. kwargs (''ctx_'' @ str_of_nat (spk + 1))) [0..<num_spk self])
               | Some ctx_lengths \<Rightarrow>
                   crop_ctx ops
                     (map (\<lambda>spk. kwargs (''ctx_'' @ str_of_nat (spk + 1))) [0..<num_spk self])
                     ctx_lengths) (\<lambda>ctx_given.
     bind_err (prepare_lengths ops speech_mix0 speech_ref0 speech_mix_lengths)
       (\<lambda>(speech_mix, speech_ref, speech_lengths, batch_size).
     bind_err (ctx_stage self ops speech_mix speech_lengths ctx_given) (\<lambda>ctx.
       Inr ((noise_ref, speech_mix, speech_ref, speech_lengths, batch_size), ctx))))))"

definition before_noise_check ::
  "enhancement_model \<Rightarrow> 't enhancement_ops
     \<Rightarrow> ('t option \<times> 't \<times> 't \<times> int list \<times> nat) \<times> 't option list \<times> scalar \<times> perm_out option
     \<Rightarrow> pyerr + 't tf_state" where
  "before_noise_check self ops prepared =
     (case prepared of
        ((noise_ref, speech_mix, speech_ref0, speech_lengths, batch_size),
         ctx_feed, ctx_loss', ctx_perm) \<Rightarrow>
     bind_err (sequence_err (map (stft ops) (unbind_dim1 ops speech_ref0))) (\<lambda>spectrum_ref.
     bind_err (stft ops speech_mix) (\<lambda>spectrum_mix.
     bind_err (enh_model_call ops speech_mix
                 (if is_TFMaskingNetCTX self then Some ctx_feed else None) speech_lengths)
       (\<lambda>(spectrum_pre, tf_length, mask_pre).
     bind_err (tf_loss_by_type self ops spectrum_mix spectrum_ref spectrum_pre mask_pre ctx_perm)
       (\<lambda>(tf_loss, perm).
          Inr \<lparr>st_speech_ref = unbind_dim1 ops speech_ref0, st_speech_lengths = speech_lengths,
               st_batch_size = batch_size, st_spectrum_mix = spectrum_mix,
               st_spectrum_pre = spectrum_pre, st_mask_pre = mask_pre,
               st_noise_ref = noise_ref, st_tf_loss = tf_loss, st_perm = perm,
               st_ctx_loss = ctx_loss'\<rparr>)))))"

text \<open>
  The lines \<open>if "noise1" in mask_pre: ...\<close>: the check for the noise reference, then the
  loss on the noise masks, added to \<open>tf_loss\<close>. It returns the new \<open>tf_loss\<close>.
\<close>

definition noise_loss_stage ::
  "enhancement_model \<Rightarrow> 't enhancement_ops \<Rightarrow> 't tf_state \<Rightarrow> pyerr + scalar" where
  "noise_loss_stage self ops st =
     (case st_mask_pre st of
        None \<Rightarrow> Inl TypeError
      | Some md \<Rightarrow>
          if ''noise1'' \<in> dom md then
            (case st_noise_ref st of
               None \<Rightarrow> Inl (ValueError no_noise_reference)
             | Some noise_ref \<Rightarrow>
                 bind_err (sequence_err (map (stft ops) (unbind_dim1 ops noise_ref)))
                   (\<lambda>noise_spectrum_ref.
                 bind_err (case mask_type self of
                             None \<Rightarrow> Inl AssertionError
                           | Some mt \<Rightarrow>
                               create_mask_label (st_spectrum_mix st) noise_spectrum_ref mt)
                   (\<lambda>noise_mask_ref.
                 bind_err (sequence_err
                             (map (\<lambda>n. lookup md (''noise'' @ str_of_nat (n + 1)))
                                  [0..<num_noise_type self]))
                   (\<lambda>mask_noise_pre.
                 bind_err (permutation_loss noise_mask_ref mask_noise_pre (tf_mse_loss_real ops)
                             None (use_pit self))
                   (\<lambda>(tf_noise_loss, perm_n). Inr (scalar_add (st_tf_loss st) tf_noise_loss))))))
          else Inr (st_tf_loss st))"

text \<open>The evaluation of SI-SNR outside training; it returns \<open>si_snr\<close>.\<close>

definition si_snr_stage ::
  "enhancement_model \<Rightarrow> 't enhancement_ops \<Rightarrow> 't tf_state \<Rightarrow> pyerr + scalar option" where
  "si_snr_stage self ops st =
     (if training self then Inr None
      else
        bind_err (sequence_err (map (\<lambda>ps. stft_inverse ops ps (st_speech_lengths st))
                                    (st_spectrum_pre st)))
          (\<lambda>speech_pre.
             case st_speech_ref st of
               [] \<Rightarrow> Inl IndexError
             | sr0 # _ \<Rightarrow>
                 bind_err (permutation_loss
                             (if tensor_dim ops sr0 = 3
                              then map (\<lambda>sr. select_channel ops sr (model_ref_channel self))
                                       (st_speech_ref st)
                              else st_speech_ref st)
                             speech_pre (si_snr_loss ops)
                             (Some (perm_indices (st_perm st))) (use_pit self))
                   (\<lambda>(si_snr_loss', perm). Inr (Some (scalar_scale (- 1) si_snr_loss')))))"

text \<open>The branch \<open>loss_type == "si_snr"\<close>; it returns \<open>(loss, stats, batch_size, ctx_loss)\<close>.\<close>

definition rawwav_branch ::
  "enhancement_model \<Rightarrow> 't enhancement_ops
     \<Rightarrow> ('t option \<times> 't \<times> 't \<times> int list \<times> nat) \<times> 't option list \<times> scalar \<times> perm_out option
     \<Rightarrow> pyerr + scalar \<times> (string \<rightharpoonup> scalar option) \<times> nat \<times> scalar" where
  "rawwav_branch self ops prepared =
     (case prepared of
        ((noise_ref, speech_mix, speech_ref0, speech_lengths0, batch_size),
         ctx_feed, ctx_loss', ctx_perm) \<Rightarrow>
     bind_err (forward_rawwav ops speech_mix
                 (if is_TasNetCTX self then Some ctx_feed else None) speech_lengths0)
       (\<lambda>(speech_pre0, speech_lengths).
          case speech_pre0 of
            [] \<Rightarrow> Inl IndexError
          | sp0 # _ \<Rightarrow>
              if tensor_dim ops sp0 \<noteq> 2 then Inl AssertionError
              else
                bind_err
                  (if predict_noise self then
                     (if int (length speech_pre0) - int (num_spk self) \<noteq> 1 then Inl AssertionError
                      else (case noise_ref of
                              None \<Rightarrow> Inl TypeError
                            | Some nr \<Rightarrow>
                                bind_err (permutation_loss (unbind_dim1 ops nr) [last speech_pre0]
                                            (si_snr_loss_zeromean ops) None True)
                                  (\<lambda>(noise_loss, _).
                                     Inr (take (num_spk self) speech_pre0, Some noise_loss))))
                   else Inr (speech_pre0, None))
                  (\<lambda>(speech_pre, noise_loss).
                     bind_err (permutation_loss
                                 (unbind_dim1 ops
                                    (if tensor_dim ops speech_ref0 = 4
                                     then select_channel ops speech_ref0 (model_ref_channel self)
                                     else speech_ref0))
                                 speech_pre (si_snr_loss_zeromean ops)
                                 (map_option perm_indices ctx_perm) (use_pit self))
                       (\<lambda>(si_snr_loss', perm).
                          Inr (case noise_loss of
                                 None \<Rightarrow>
                                   (si_snr_loss',
                                    [''si_snr'' \<mapsto> Some (scalar_scale (- 1) si_snr_loss')],
                                    batch_size, ctx_loss')
                               | Some nl \<Rightarrow>
                                   (scalar_add si_snr_loss' nl,
                                    [''si_snr'' \<mapsto> Some (scalar_scale (- 1) si_snr_loss'),
                                     ''noise_snr'' \<mapsto> Some (scalar_scale (- 1) nl)],
                                    batch_size, ctx_loss'))))))"

text \<open>The branch \<open>loss_type != "si_snr"\<close>, with the same result.\<close>

definition tf_branch ::
  "enhancement_model \<Rightarrow> 't enhancement_ops
     \<Rightarrow> ('t option \<times> 't \<times> 't \<times> int list \<times> nat) \<times> 't option list \<times> scalar \<times> perm_out option
     \<Rightarrow> pyerr + scalar \<times> (string \<rightharpoonup> scalar option) \<times> nat \<times> scalar" where
  "tf_branch self ops prepared =
     bind_err (before_noise_check self ops prepared) (\<lambda>st.
     bind_err (noise_loss_stage self ops st) (\<lambda>tf_loss.
     bind_err (si_snr_stage self ops (st\<lparr>st_tf_loss := tf_loss\<rparr>)) (\<lambda>si_snr.
       Inr (tf_loss,
            [''si_snr'' \<mapsto> si_snr, ''loss'' \<mapsto> Some tf_loss, ''tf_loss'' \<mapsto> Some tf_loss],
            st_batch_size st, st_ctx_loss st))))"

text \<open>
  \<open>ESPnetEnhancementModel.forward(speech_mix, speech_mix_lengths, **kwargs)\<close>; it returns
  \<open>(loss, stats, weight)\<close>.
\<close>

definition enhancement_forward ::
  "enhancement_model \<Rightarrow> 't enhancement_ops \<Rightarrow> 't \<Rightarrow> int list option \<Rightarrow> (string \<rightharpoonup> 't)
     \<Rightarrow> pyerr + scalar \<times> (string \<rightharpoonup> scalar option) \<times> nat" where
  "enhancement_forward self ops speech_mix speech_mix_lengths kwargs =
     bind_err (prepare self ops speech_mix speech_mix_lengths kwargs) (\<lambda>prepared.
     bind_err (if loss_type self \<noteq> ''si_snr'' then tf_branch self ops prepared
               else rawwav_branch self ops prepared)
       (\<lambda>(loss0, stats0, batch_size, ctx_loss0).
          if ctx_mode self = Some ''joint_train''
          then (let ctx_loss' = scalar_scale 10 ctx_loss0;
                    loss = scalar_add (scalar_scale (1 - ctx_factor self) loss0)
                                      (scalar_scale (ctx_factor self) ctx_loss')
                in Inr (loss,
                        stats0(''ctx_loss'' \<mapsto> Some ctx_loss', ''loss'' \<mapsto> Some loss),
                        batch_size))
          else Inr (loss0, stats0(''loss'' \<mapsto> Some loss0), batch_size)))"

text \<open>
  An instance to run \<open>forward\<close> on: one batch element and signals of one sample, so that a
  waveform is the list of the samples of its speakers, the transform keeps the sample, the
  network returns the mixture for every speaker together with the given dictionary of
  masks, and every criterion is the squared or absolute error of the one batch element.
\<close>

definition toy_ops :: "(string \<rightharpoonup> real list) option \<Rightarrow> real list enhancement_ops" where
  "toy_ops predicted_masks =
     \<lparr>stack_dim1 = (\<lambda>ts. Inr (concat ts)),
      unbind_dim1 = (\<lambda>t. map (\<lambda>x. [x]) t),
      crop_ctx = (\<lambda>ctx lens. Inr ctx),
      prepare_lengths =
        (\<lambda>mix r lens. Inr (mix, r, (case lens of None \<Rightarrow> [1] | Some l \<Rightarrow> l), 1)),
      ctx_predictor = (\<lambda>mix lens. Inr []),
      ctx_loss = (\<lambda>r h. Inr [0]),
      stft = (\<lambda>t. Inr (map complex_of_real t)),
      stft_inverse = (\<lambda>s lens. Inr (map Re s)),
      enh_model_call = (\<lambda>mix ctx lens. Inr ([map complex_of_real mix], lens, predicted_masks)),
      forward_rawwav = (\<lambda>mix ctx lens. Inr ([mix], lens)),
      tf_mse_loss_real = (\<lambda>r h. tensor_op (\<lambda>x y. (x - y)\<^sup>2) r h),
      tf_l1_loss_real = (\<lambda>r h. tensor_op (\<lambda>x y. \<bar>x - y\<bar>) r h),
      tf_mse_loss_complex = (\<lambda>r h. tensor_op (\<lambda>x y. (cmod (x - y))\<^sup>2) r h),
      tf_l1_loss_complex = (\<lambda>r h. tensor_op (\<lambda>x y. cmod (x - y)) r h),
      si_snr_loss = (\<lambda>r h. tensor_op (\<lambda>x y. (x - y)\<^sup>2) r h),
      si_snr_loss_zeromean = (\<lambda>r h. tensor_op (\<lambda>x y. (x - y)\<^sup>2) r h),
      tensor_dim = (\<lambda>t. 2),
      select_channel = (\<lambda>t c. t)\<rparr>"

definition toy_model :: enhancement_model where
  "toy_model =
     \<lparr>num_spk = 1, num_noise_type = 1, mask_type = Some ''IAM'', loss_type = ''spectrum'',
      model_ref_channel = - 1, use_pit = True, ctx_mode = None, ctx_factor = 1 / 2,
      training = True, is_TFMaskingNetCTX = False, is_TasNetCTX = False,
      predict_noise = False\<rparr>"

section \<open>Lemmas about the tensor operations and the enumeration of permutations\<close>

lemma sequence_err_map_Inr: "sequence_err (map (\<lambda>x. Inr (f x)) xs) = Inr (map f xs)"
  by (induction xs) auto

lemma sequence_err_all_Inr:
  "(\<And>x. x \<in> set xs \<Longrightarrow> g x = Inr (f x)) \<Longrightarrow> sequence_err (map g xs) = Inr (map f xs)"
  by (induction xs) auto

lemma tensor_add_same: "length a = length b \<Longrightarrow> tensor_add a b = Inr (map2 (+) a b)"
  by (simp add: tensor_add_def)

lemma tensor_sum_same:
  "(\<And>t. t \<in> set ts \<Longrightarrow> length t = length acc) \<Longrightarrow>
   tensor_sum acc ts = Inr (map (\<lambda>b. acc ! b + (\<Sum>t\<leftarrow>ts. t ! b)) [0..<length acc])"
proof (induction ts arbitrary: acc)
  case Nil
  then show ?case by (simp add: map_nth)
next
  case (Cons t ts)
  have lt: "length t = length acc" using Cons.prems by simp
  have len: "length (map2 (+) acc t) = length acc" using lt by simp
  have "tensor_sum (map2 (+) acc t) ts =
          Inr (map (\<lambda>b. map2 (+) acc t ! b + (\<Sum>t\<leftarrow>ts. t ! b)) [0..<length (map2 (+) acc t)])"
    by (rule Cons.IH) (use Cons.prems lt in auto)
  then show ?case using lt
    by (auto simp add: tensor_add_same add.assoc)
qed

lemma pair_loss_ok:
  assumes ok: "pit_inputs_ok ref infr criterion B"
    and len: "length p = length ref" and rng: "set p \<subseteq> {..<length ref}"
  shows "pair_loss ref infr criterion p = Inr (map (perm_distortion ref infr criterion p) [0..<B])"
proof -
  let ?K = "length ref"
  let ?g = "\<lambda>(s, t). if s < length ref
                     then (if t < length infr then criterion (ref ! s) (infr ! t) else Inl IndexError)
                     else Inl IndexError"
  let ?f = "\<lambda>(s, t). map (cval criterion (ref ! s) (infr ! t)) [0..<B]"
  have K: "0 < ?K" "length infr = ?K" using ok by (auto simp: pit_inputs_ok_def)
  have crit: "criterion (ref ! s) (infr ! t) = Inr (map (cval criterion (ref ! s) (infr ! t)) [0..<B])"
    if "s < ?K" "t < ?K" for s t
  proof -
    from that K ok obtain v where v: "criterion (ref ! s) (infr ! t) = Inr v" "length v = B"
      unfolding pit_inputs_ok_def by (metis nth_mem)
    then show ?thesis by (auto simp: cval_def intro: nth_equalityI)
  qed
  have el: "?g x = Inr (?f x)" if "x \<in> set (enumerate 0 p)" for x
  proof -
    obtain s t where x: "x = (s, t)" by (cases x)
    from that x have "s < ?K" "t < ?K" using len rng
      by (auto simp: in_set_enumerate_eq subset_eq)
    then show ?thesis using crit K x by simp
  qed
  have seq: "sequence_err (map ?g (enumerate 0 p)) = Inr (map ?f (enumerate 0 p))"
    by (rule sequence_err_all_Inr) (rule el)
  have "length (map ?f (enumerate 0 p)) = ?K" using len by simp
  then obtain t0 ts where ts: "map ?f (enumerate 0 p) = t0 # ts"
    using K by (cases "map ?f (enumerate 0 p)") auto
  have lens: "\<And>t. t \<in> set (t0 # ts) \<Longrightarrow> length t = B"
    unfolding ts[symmetric] by auto
  then have l0: "length t0 = B" and lts: "\<And>t. t \<in> set ts \<Longrightarrow> length t = length t0" by auto
  have sum: "tensor_sum t0 ts = Inr (map (\<lambda>b. t0 ! b + (\<Sum>t\<leftarrow>ts. t ! b)) [0..<B])"
    using tensor_sum_same[of ts t0, OF lts] l0 by simp
  have tot: "t0 ! b + (\<Sum>t\<leftarrow>ts. t ! b) = (\<Sum>i\<leftarrow>[0..<?K]. cval criterion (ref ! i) (infr ! (p ! i)) b)"
    if "b < B" for b
  proof -
    have "t0 ! b + (\<Sum>t\<leftarrow>ts. t ! b) = (\<Sum>t\<leftarrow>(t0 # ts). t ! b)" by simp
    also have "\<dots> = (\<Sum>x\<leftarrow>enumerate 0 p. ?f x ! b)"
      unfolding ts[symmetric] by (simp add: comp_def)
    also have "\<dots> = (\<Sum>x\<leftarrow>enumerate 0 p. cval criterion (ref ! fst x) (infr ! snd x) b)"
      using that by (intro arg_cong[where f=sum_list] map_cong) (auto)
    also have "enumerate 0 p = map (\<lambda>i. (i, p ! i)) [0..<?K]"
      using len by (auto simp: enumerate_eq_zip intro!: nth_equalityI)
    finally show ?thesis by (simp add: comp_def)
  qed
  show ?thesis
    unfolding pair_loss_def seq ts using sum tot len
    by (simp add: perm_distortion_def)
qed

lemma map_fst_picks: "map fst (picks xs) = xs"
  by (induction xs) (auto simp: comp_def case_prod_unfold)

lemma length_picks: "length (picks xs) = length xs"
  by (induction xs) auto

lemma picks_mset: "(y, ys) \<in> set (picks xs) \<Longrightarrow> mset xs = add_mset y (mset ys)"
  by (induction xs arbitrary: y ys) auto

lemma picks_length: "(y, ys) \<in> set (picks xs) \<Longrightarrow> Suc (length ys) = length xs"
  by (induction xs arbitrary: y ys) auto

lemma picks_sorted:
  "sorted_wrt (<) (xs :: 'a :: linorder list) \<Longrightarrow> (y, ys) \<in> set (picks xs) \<Longrightarrow> sorted_wrt (<) ys"
proof (induction xs arbitrary: y ys)
  case Nil
  then show ?case by simp
next
  case (Cons x xs)
  show ?case
  proof (cases "(y, ys) = (x, xs)")
    case True
    then show ?thesis using Cons.prems by simp
  next
    case False
    then obtain zs where zs: "(y, zs) \<in> set (picks xs)" "ys = x # zs"
      using Cons.prems(2) by auto
    have "set_mset (mset xs) = insert y (set_mset (mset zs))"
      by (simp only: picks_mset[OF zs(1)] set_mset_add_mset_insert)
    then have "set zs \<subseteq> set xs" by auto
    moreover have "sorted_wrt (<) zs" using Cons.IH[OF _ zs(1)] Cons.prems(1) by simp
    ultimately show ?thesis using Cons.prems(1) zs(2) by auto
  qed
qed

lemma set_perms_of: "length xs = n \<Longrightarrow> set (perms_of n xs) = {ys. mset ys = mset xs}"
proof (induction n arbitrary: xs)
  case 0
  then show ?case by auto
next
  case (Suc n)
  show ?case
  proof (intro set_eqI iffI)
    fix zs assume "zs \<in> set (perms_of (Suc n) xs)"
    then obtain y ys ws where a: "(y, ys) \<in> set (picks xs)" "ws \<in> set (perms_of n ys)" "zs = y # ws"
      by auto
    have "length ys = n" using picks_length[OF a(1)] Suc.prems by simp
    from Suc.IH[OF this] a(2) have "mset ws = mset ys" by simp
    then show "zs \<in> {ys. mset ys = mset xs}" using picks_mset[OF a(1)] a(3) by simp
  next
    fix zs assume "zs \<in> {ys. mset ys = mset xs}"
    then have m: "mset zs = mset xs" by simp
    then have "length zs = Suc n" using Suc.prems by (metis size_mset)
    then obtain y ws where zs: "zs = y # ws" by (cases zs) auto
    have "y \<in> set xs" using m zs by (metis list.set_intros(1) mset_eq_setD)
    then have "y \<in> set (map fst (picks xs))" by (simp only: map_fst_picks)
    then obtain ys where p: "(y, ys) \<in> set (picks xs)" by auto
    have "mset ws = mset ys" using picks_mset[OF p] m zs by simp
    moreover have "length ys = n" using picks_length[OF p] Suc.prems by simp
    ultimately have "ws \<in> set (perms_of n ys)" using Suc.IH by simp
    then show "zs \<in> set (perms_of (Suc n) xs)" using p zs by force
  qed
qed

lemma length_perms_of: "length xs = n \<Longrightarrow> length (perms_of n xs) = fact n"
proof (induction n arbitrary: xs)
  case 0
  then show ?case by simp
next
  case (Suc n)
  have "\<And>p. p \<in> set (picks xs) \<Longrightarrow> length (perms_of n (snd p)) = fact n"
    using Suc.IH picks_length Suc.prems by (metis Suc_inject prod.collapse)
  then have "map (\<lambda>p. length (perms_of n (snd p))) (picks xs) = map (\<lambda>p. fact n) (picks xs)"
    by (intro map_cong) auto
  then have "(\<Sum>p\<leftarrow>picks xs. length (perms_of n (snd p))) = (\<Sum>p\<leftarrow>picks xs. fact n)"
    by (rule arg_cong[where f = sum_list])
  also have "\<dots> = Suc n * fact n" using Suc.prems by (simp add: sum_list_triv length_picks)
  finally show ?case
    by (simp add: length_concat comp_def case_prod_unfold)
qed

lemma sorted_blocks:
  fixes ps :: "('a :: linorder \<times> 'b) list"
  assumes "sorted_wrt (<) (map fst ps)"
    and "\<And>y ys. (y, ys) \<in> set ps \<Longrightarrow> sorted_wrt (<) (f ys)"
  shows "sorted_wrt (<) (concat (map (\<lambda>(y, ys). map ((#) y) (f ys)) ps))"
  using assms
proof (induction ps)
  case Nil
  then show ?case by simp
next
  case (Cons p ps)
  obtain y ys where p: "p = (y, ys)" by (cases p)
  have 1: "sorted_wrt (<) (map ((#) y) (f ys))"
    using Cons.prems(2)[of y ys] p by (simp add: sorted_wrt_map)
  have 2: "sorted_wrt (<) (concat (map (\<lambda>(y, ys). map ((#) y) (f ys)) ps))"
  proof (rule Cons.IH)
    show "sorted_wrt (<) (map fst ps)" using Cons.prems(1) by simp
  next
    fix y ys assume "(y, ys) \<in> set ps"
    then show "sorted_wrt (<) (f ys)" using Cons.prems(2)[of y ys] by simp
  qed
  have 3: "a < b" if "a \<in> set (map ((#) y) (f ys))"
      "b \<in> set (concat (map (\<lambda>(y, ys). map ((#) y) (f ys)) ps))" for a b
  proof -
    from that obtain z zs as bs where "a = y # as" "b = z # bs" "(z, zs) \<in> set ps" by auto
    moreover then have "y < z" using Cons.prems(1) p by force
    ultimately show ?thesis by simp
  qed
  show ?case using 1 2 3 p by (simp add: sorted_wrt_append)
qed

lemma sorted_perms_of:
  fixes xs :: "'a :: linorder list"
  shows "sorted_wrt (<) xs \<Longrightarrow> sorted_wrt (<) (perms_of n xs)"
proof (induction n arbitrary: xs)
  case 0
  then show ?case by simp
next
  case (Suc n)
  show ?case unfolding perms_of.simps
  proof (rule sorted_blocks)
    show "sorted_wrt (<) (map fst (picks xs))" using Suc.prems by (simp only: map_fst_picks)
  next
    fix y ys assume "(y, ys) \<in> set (picks xs)"
    then show "sorted_wrt (<) (perms_of n ys)" using Suc.IH picks_sorted[OF Suc.prems] by blast
  qed
qed

lemma is_perm_mset: "is_perm K p \<longleftrightarrow> mset p = mset [0..<K]"
proof
  assume "is_perm K p"
  then have "distinct p" "set p = set [0..<K]"
    unfolding is_perm_def by (simp_all add: lessThan_atLeast0)
  then show "mset p = mset [0..<K]" using set_eq_iff_mset_eq_distinct[of p "[0..<K]"] by simp
next
  assume m: "mset p = mset [0..<K]"
  then have "length p = length [0..<K]" by (rule mset_eq_length)
  then have "length p = K" by simp
  moreover have "distinct p" using mset_eq_imp_distinct_iff[OF m] by simp
  moreover have "set p = {..<K}" using mset_eq_setD[OF m] by (simp add: lessThan_atLeast0)
  ultimately show "is_perm K p" by (simp add: is_perm_def)
qed

lemma set_permutations: "set (permutations [0..<K]) = {p. is_perm K p}"
  by (simp add: permutations_def set_perms_of is_perm_mset)

lemma length_permutations: "length (permutations [0..<K]) = fact K"
  by (simp add: permutations_def length_perms_of)

lemma sorted_permutations: "sorted_wrt (<) (permutations [0..<K])"
  unfolding permutations_def by (rule sorted_perms_of) (simp add: sorted_wrt_iff_nth_less)

section \<open>Lemmas about the search over permutations\<close>

lemma argmin_from_fst: "fst (argmin_from best bi i xs) = Min (insert best (set xs))"
proof (induction xs arbitrary: best bi i)
  case Nil
  then show ?case by simp
next
  case (Cons x xs)
  show ?case
  proof (cases "x < best")
    case True
    have "Min (insert x (set xs)) \<le> x" by simp
    with True have "min best (Min (insert x (set xs))) = Min (insert x (set xs))" by linarith
    then have "Min (insert best (insert x (set xs))) = Min (insert x (set xs))"
      by (simp only: Min_insert[OF finite_insert[THEN iffD2, OF finite_set] insert_not_empty])
    with True Cons show ?thesis by simp
  next
    case False
    have "Min (insert best (set xs)) \<le> best" by simp
    with False have "min x (Min (insert best (set xs))) = Min (insert best (set xs))" by linarith
    then have "Min (insert x (insert best (set xs))) = Min (insert best (set xs))"
      by (simp only: Min_insert[OF finite_insert[THEN iffD2, OF finite_set] insert_not_empty])
    then have "Min (insert best (insert x (set xs))) = Min (insert best (set xs))"
      by (simp only: insert_commute)
    with False Cons show ?thesis by simp
  qed
qed

lemma argmin_from_snd:
  "argmin_from best bi i xs = (m, j) \<Longrightarrow>
     (j = bi \<and> m = best) \<or> (i \<le> j \<and> j < i + length xs \<and> xs ! (j - i) = m)"
proof (induction xs arbitrary: best bi i)
  case Nil
  then show ?case by simp
next
  case (Cons x xs)
  show ?case
  proof (cases "x < best")
    case True
    with Cons.prems have "argmin_from x i (Suc i) xs = (m, j)" by simp
    from Cons.IH[OF this] show ?thesis by (auto simp: nth_Cons')
  next
    case False
    with Cons.prems have "argmin_from best bi (Suc i) xs = (m, j)" by simp
    from Cons.IH[OF this] show ?thesis by (auto simp: nth_Cons')
  qed
qed

lemma torch_min_row_ok:
  assumes "row \<noteq> []"
  shows "\<exists>m j. torch_min_row row = Inr (m, j) \<and> m = Min (set row) \<and> j < length row \<and> row ! j = m"
proof -
  from assms obtain x xs where row: "row = x # xs" by (cases row) auto
  obtain m j where mj: "argmin_from x 0 1 xs = (m, j)" by (cases "argmin_from x 0 1 xs")
  have "m = Min (set row)" using argmin_from_fst[of x 0 1 xs] mj row by simp
  moreover have "j < length row \<and> row ! j = m"
    using argmin_from_snd[OF mj] row by (auto simp: nth_Cons')
  ultimately show ?thesis using mj row by (simp add: torch_min_row_def)
qed

lemma permutations_nonempty: "permutations [0..<K] \<noteq> []"
proof -
  have "length (permutations [0..<K]) > 0" by (simp add: length_permutations)
  then show ?thesis by blast
qed

lemma pit_columns:
  assumes ok: "pit_inputs_ok ref infr criterion B"
  shows "sequence_err (map (pair_loss ref infr criterion) (permutations [0..<length ref])) =
         Inr (map (\<lambda>p. map (perm_distortion ref infr criterion p) [0..<B])
                  (permutations [0..<length ref]))"
proof (rule sequence_err_all_Inr)
  fix p assume "p \<in> set (permutations [0..<length ref])"
  then have "is_perm (length ref) p" by (simp add: set_permutations)
  then have "length p = length ref" "set p \<subseteq> {..<length ref}" by (auto simp: is_perm_def)
  then show "pair_loss ref infr criterion p = Inr (map (perm_distortion ref infr criterion p) [0..<B])"
    by (rule pair_loss_ok[OF ok])
qed

lemma pit_stack:
  assumes "ps \<noteq> []"
  shows "torch_stack (map (\<lambda>p. map (f p) [0..<B]) ps) = Inr (map (\<lambda>b. map (\<lambda>p. f p b) ps) [0..<B])"
proof -
  from assms obtain q qs where ps: "ps = q # qs" by (cases ps) auto
  have "map (\<lambda>b. map (\<lambda>col. col ! b) (map (\<lambda>p. map (f p) [0..<B]) ps)) [0..<B]
        = map (\<lambda>b. map (\<lambda>p. f p b) ps) [0..<B]"
    by (rule map_cong) (auto simp: comp_def)
  then show ?thesis unfolding ps torch_stack_def by simp
qed

lemma pit_min_rows:
  assumes ne: "ps \<noteq> []"
  shows "\<exists>idx. sequence_err (map (\<lambda>b. torch_min_row (map (\<lambda>p. f p b) ps)) [0..<B])
               = Inr (map (\<lambda>b. (Min ((\<lambda>p. f p b) ` set ps), idx b)) [0..<B])
             \<and> (\<forall>b. idx b < length ps \<and> f (ps ! idx b) b = Min ((\<lambda>p. f p b) ` set ps))"
proof -
  have "\<forall>b. \<exists>j. torch_min_row (map (\<lambda>p. f p b) ps) = Inr (Min ((\<lambda>p. f p b) ` set ps), j)
                \<and> j < length ps \<and> f (ps ! j) b = Min ((\<lambda>p. f p b) ` set ps)"
  proof
    fix b
    have "map (\<lambda>p. f p b) ps \<noteq> []" using ne by simp
    from torch_min_row_ok[OF this] show "\<exists>j. torch_min_row (map (\<lambda>p. f p b) ps) =
        Inr (Min ((\<lambda>p. f p b) ` set ps), j) \<and> j < length ps \<and> f (ps ! j) b = Min ((\<lambda>p. f p b) ` set ps)"
      by auto
  qed
  then obtain idx where idx: "\<And>b. torch_min_row (map (\<lambda>p. f p b) ps) = Inr (Min ((\<lambda>p. f p b) ` set ps), idx b)"
      "\<And>b. idx b < length ps" "\<And>b. f (ps ! idx b) b = Min ((\<lambda>p. f p b) ` set ps)"
    by metis
  have "sequence_err (map (\<lambda>b. torch_min_row (map (\<lambda>p. f p b) ps)) [0..<B])
        = Inr (map (\<lambda>b. (Min ((\<lambda>p. f p b) ` set ps), idx b)) [0..<B])"
    by (rule sequence_err_all_Inr) (rule idx(1))
  then show ?thesis using idx(2,3) by blast
qed

lemma permutation_loss_search:
  assumes ok: "pit_inputs_ok ref infr criterion B"
  shows "\<exists>idx. permutation_loss ref infr criterion None True =
               Inr (Finite (spec_pit_loss ref infr criterion B), PermTensor (map (\<lambda>b. int (idx b)) [0..<B]))
             \<and> (\<forall>b. idx b < length (permutations [0..<length ref])
                  \<and> perm_distortion ref infr criterion (permutations [0..<length ref] ! idx b) b
                      = min_distortion ref infr criterion b)"
proof -
  let ?ps = "permutations [0..<length ref]"
  let ?f = "perm_distortion ref infr criterion"
  have B: "0 < B" using ok by (simp add: pit_inputs_ok_def)
  from pit_min_rows[OF permutations_nonempty, of ?f "length ref" B]
  obtain idx where idx:
    "sequence_err (map (\<lambda>b. torch_min_row (map (\<lambda>p. ?f p b) ?ps)) [0..<B])
       = Inr (map (\<lambda>b. (Min ((\<lambda>p. ?f p b) ` set ?ps), idx b)) [0..<B])"
    "\<And>b. idx b < length ?ps" "\<And>b. ?f (?ps ! idx b) b = Min ((\<lambda>p. ?f p b) ` set ?ps)"
    by blast
  have md: "Min ((\<lambda>p. ?f p b) ` set ?ps) = min_distortion ref infr criterion b" for b
    by (simp add: min_distortion_def set_permutations)
  have "permutation_loss ref infr criterion None True =
        Inr (tensor_mean (map (\<lambda>b. min_distortion ref infr criterion b) [0..<B]),
             PermTensor (map (\<lambda>b. int (idx b)) [0..<B]))"
    unfolding permutation_loss_def Let_def
    by (simp add: pit_columns[OF ok] pit_stack[OF permutations_nonempty] idx(1) md comp_def)
  moreover have "tensor_mean (map (\<lambda>b. min_distortion ref infr criterion b) [0..<B])
                 = Finite (spec_pit_loss ref infr criterion B)"
    using B by (simp add: tensor_mean_def spec_pit_loss_def)
  ultimately show ?thesis using idx(2,3) md by auto
qed

lemma frontend_permutation_loss_eq:
  "frontend_permutation_loss ref infr criterion perm = permutation_loss ref infr criterion perm True"
  by (simp add: frontend_permutation_loss_def permutation_loss_def)

lemma is_perm_upt: "is_perm K [0..<K]"
  by (simp add: is_perm_def lessThan_atLeast0)

lemma perm_distortion_identity:
  "perm_distortion ref infr criterion [0..<length ref] b
     = (\<Sum>i\<leftarrow>[0..<length ref]. cval criterion (ref ! i) (infr ! i) b) / real (length ref)"
proof -
  have "map (\<lambda>i. cval criterion (ref ! i) (infr ! ([0..<length ref] ! i)) b) [0..<length ref]
      = map (\<lambda>i. cval criterion (ref ! i) (infr ! i) b) [0..<length ref]"
    by (rule map_cong) auto
  then show ?thesis unfolding perm_distortion_def by (simp only:)
qed

lemma perm_distortion_identity_fun:
  "perm_distortion ref infr criterion [0..<length ref]
     = (\<lambda>b. (\<Sum>i\<leftarrow>[0..<length ref]. cval criterion (ref ! i) (infr ! i) b) / real (length ref))"
  by (rule ext) (rule perm_distortion_identity)

lemma min_distortion_le:
  assumes "is_perm (length ref) p"
  shows "min_distortion ref infr criterion b \<le> perm_distortion ref infr criterion p b"
proof -
  have fin: "finite {p. is_perm (length ref) p}"
    unfolding set_permutations[symmetric] by simp
  show ?thesis unfolding min_distortion_def
    by (rule Min_le) (use fin assms in auto)
qed

lemma permutation_loss_no_pit:
  assumes ok: "pit_inputs_ok ref infr criterion B"
  shows "permutation_loss ref infr criterion perm False
           = Inr (Finite (identity_loss ref infr criterion B), PermList [0..<length ref])"
proof -
  have B: "0 < B" using ok by (simp add: pit_inputs_ok_def)
  have pl: "pair_loss ref infr criterion [0..<length ref]
              = Inr (map (perm_distortion ref infr criterion [0..<length ref]) [0..<B])"
    by (rule pair_loss_ok[OF ok]) auto
  have "tensor_mean (map (perm_distortion ref infr criterion [0..<length ref]) [0..<B])
          = Finite (identity_loss ref infr criterion B)"
    using B by (simp add: tensor_mean_def identity_loss_def perm_distortion_identity_fun)
  then show ?thesis unfolding permutation_loss_def Let_def by (simp add: pl)
qed

lemma spec_pit_loss_le_identity:
  assumes B: "0 < B"
  shows "spec_pit_loss ref infr criterion B \<le> identity_loss ref infr criterion B"
proof -
  have "(\<Sum>b\<leftarrow>[0..<B]. min_distortion ref infr criterion b)
        \<le> (\<Sum>b\<leftarrow>[0..<B]. perm_distortion ref infr criterion [0..<length ref] b)"
    by (rule sum_list_mono) (rule min_distortion_le[OF is_perm_upt])
  then show ?thesis using B
    unfolding spec_pit_loss_def identity_loss_def perm_distortion_identity[symmetric]
    by (simp add: divide_right_mono)
qed

lemma py_index_nonneg: "0 \<le> i \<Longrightarrow> nat i < length xs \<Longrightarrow> py_index xs i = Inr (xs ! nat i)"
  by (auto simp: py_index_def)

lemma index_rows_ok:
  assumes len: "length perm = B"
    and rng: "\<And>b. b < B \<Longrightarrow> 0 \<le> perm ! b \<and> nat (perm ! b) < length ps"
  shows "index_rows (map (\<lambda>b. map (\<lambda>p. f p b) ps) [0..<B]) perm
           = Inr (map (\<lambda>b. f (ps ! nat (perm ! b)) b) [0..<B])"
proof -
  let ?rows = "map (\<lambda>b. map (\<lambda>p. f p b) ps) [0..<B]"
  have z: "zip ?rows perm = map (\<lambda>b. (map (\<lambda>p. f p b) ps, perm ! b)) [0..<B]"
    using len by (intro nth_equalityI) auto
  have "sequence_err (map (\<lambda>b. py_index (map (\<lambda>p. f p b) ps) (perm ! b)) [0..<B])
          = Inr (map (\<lambda>b. f (ps ! nat (perm ! b)) b) [0..<B])"
  proof (rule sequence_err_all_Inr)
    fix b assume "b \<in> set [0..<B]"
    then have b: "b < B" by simp
    from rng[OF b] show "py_index (map (\<lambda>p. f p b) ps) (perm ! b) = Inr (f (ps ! nat (perm ! b)) b)"
      by (simp add: py_index_nonneg)
  qed
  then show ?thesis using len unfolding index_rows_def z by (simp add: comp_def)
qed

lemma is_perm_nth_less: "is_perm K p \<Longrightarrow> i < K \<Longrightarrow> p ! i < K"
  unfolding is_perm_def using nth_mem[of i p] by auto

lemma is_perm_compose:
  assumes s: "is_perm K sigma" and p: "is_perm K p"
  shows "is_perm K (compose_perm sigma p)"
proof -
  have inj: "inj_on (\<lambda>j. sigma ! j) {..<K}"
    using s unfolding is_perm_def inj_on_def by (auto simp: nth_eq_iff_index_eq)
  have "set sigma = (\<lambda>j. sigma ! j) ` {..<K}"
    using s unfolding is_perm_def by (auto simp: set_conv_nth image_iff)
  then have img: "(\<lambda>j. sigma ! j) ` {..<K} = {..<K}" using s by (simp add: is_perm_def)
  have "distinct (map (\<lambda>j. sigma ! j) p)"
    using p inj by (simp add: distinct_map is_perm_def)
  moreover have "set (map (\<lambda>j. sigma ! j) p) = {..<K}" using p img by (simp add: is_perm_def)
  ultimately show ?thesis using p by (simp add: is_perm_def compose_perm_def)
qed

lemma compose_perm_image:
  assumes s: "is_perm K sigma"
  shows "compose_perm sigma ` {p. is_perm K p} = {p. is_perm K p}"
proof (rule endo_inj_surj)
  show "finite {p. is_perm K p}" unfolding set_permutations[symmetric] by simp
  show "compose_perm sigma ` {p. is_perm K p} \<subseteq> {p. is_perm K p}"
    using is_perm_compose[OF s] by auto
  have inj: "inj_on (\<lambda>j. sigma ! j) {..<K}"
    using s unfolding is_perm_def inj_on_def by (auto simp: nth_eq_iff_index_eq)
  show "inj_on (compose_perm sigma) {p. is_perm K p}"
  proof (rule inj_onI)
    fix p q assume p: "p \<in> {p. is_perm K p}" and q: "q \<in> {p. is_perm K p}"
      and e: "compose_perm sigma p = compose_perm sigma q"
    have "set p \<union> set q = {..<K}" using p q by (auto simp: is_perm_def)
    then have "inj_on (\<lambda>j. sigma ! j) (set p \<union> set q)" using inj by simp
    with e show "p = q" unfolding compose_perm_def by (rule map_inj_on)
  qed
qed

lemma perm_distortion_permute:
  assumes s: "is_perm (length ref) sigma" and p: "is_perm (length ref) p"
    and len: "length infr = length ref"
  shows "perm_distortion ref (permute_hyps sigma infr) criterion p b
           = perm_distortion ref infr criterion (compose_perm sigma p) b"
proof -
  have "map (\<lambda>i. cval criterion (ref ! i) (permute_hyps sigma infr ! (p ! i)) b) [0..<length ref]
      = map (\<lambda>i. cval criterion (ref ! i) (infr ! (compose_perm sigma p ! i)) b) [0..<length ref]"
  proof (rule map_cong[OF refl])
    fix i assume "i \<in> set [0..<length ref]"
    then have i: "i < length ref" by simp
    then have pi: "p ! i < length ref" using is_perm_nth_less[OF p] by simp
    have "permute_hyps sigma infr ! (p ! i) = infr ! (sigma ! (p ! i))"
      using pi len by (simp add: permute_hyps_def)
    moreover have "compose_perm sigma p ! i = sigma ! (p ! i)"
      using i p by (simp add: compose_perm_def is_perm_def)
    ultimately show "cval criterion (ref ! i) (permute_hyps sigma infr ! (p ! i)) b
        = cval criterion (ref ! i) (infr ! (compose_perm sigma p ! i)) b" by simp
  qed
  then show ?thesis unfolding perm_distortion_def by (simp only:)
qed

lemma min_distortion_permute:
  assumes s: "is_perm (length ref) sigma" and len: "length infr = length ref"
  shows "min_distortion ref (permute_hyps sigma infr) criterion b = min_distortion ref infr criterion b"
proof -
  let ?P = "{p. is_perm (length ref) p}"
  have "(\<lambda>p. perm_distortion ref (permute_hyps sigma infr) criterion p b) ` ?P
      = (\<lambda>p. perm_distortion ref infr criterion (compose_perm sigma p) b) ` ?P"
    by (rule image_cong[OF refl]) (simp add: perm_distortion_permute[OF s _ len])
  also have "\<dots> = (\<lambda>q. perm_distortion ref infr criterion q b) ` (compose_perm sigma ` ?P)"
    by (simp add: image_image)
  also have "\<dots> = (\<lambda>q. perm_distortion ref infr criterion q b) ` ?P"
    by (simp only: compose_perm_image[OF s])
  finally show ?thesis unfolding min_distortion_def by (simp only:)
qed

lemma spec_pit_loss_permute:
  assumes s: "is_perm (length ref) sigma" and len: "length infr = length ref"
  shows "spec_pit_loss ref (permute_hyps sigma infr) criterion B = spec_pit_loss ref infr criterion B"
proof -
  have "min_distortion ref (permute_hyps sigma infr) criterion = min_distortion ref infr criterion"
    by (rule ext) (rule min_distortion_permute[OF s len])
  then show ?thesis unfolding spec_pit_loss_def by (simp only:)
qed

lemma pit_inputs_ok_permute:
  assumes ok: "pit_inputs_ok ref infr criterion B" and s: "is_perm (length ref) sigma"
  shows "pit_inputs_ok ref (permute_hyps sigma infr) criterion B"
proof -
  have len: "length infr = length ref" using ok by (simp add: pit_inputs_ok_def)
  have "set (permute_hyps sigma infr) \<subseteq> set infr"
  proof
    fix h assume "h \<in> set (permute_hyps sigma infr)"
    then obtain j where j: "j < length infr" "h = infr ! (sigma ! j)"
      by (auto simp: permute_hyps_def)
    then have "sigma ! j < length infr" using is_perm_nth_less[OF s] len by simp
    then show "h \<in> set infr" using j by simp
  qed
  moreover have "length (permute_hyps sigma infr) = length ref" using len by (simp add: permute_hyps_def)
  ultimately show ?thesis using ok unfolding pit_inputs_ok_def by blast
qed

section \<open>Claims about the permutation-invariant loss\<close>

text \<open>
  Claim C1. For \<open>K \<ge> 1\<close> references, \<open>K\<close> hypotheses and a criterion that returns one
  value per batch element, \<open>_permutation_loss\<close> with \<open>use_pit=True\<close> and \<open>perm=None\<close>
  (in both models) returns the mean over the batch of the minimum, over all permutations
  \<open>p\<close> of \<open>{0..K-1}\<close>, of \<open>(1/K) * sum_i criterion(ref_i, hyp_p(i))\<close>, together with, for
  each batch element, the index of a minimising permutation in the enumeration
  \<open>permutations(range(K))\<close>; that enumeration is strictly increasing in the lexicographic
  order and holds exactly the \<open>K!\<close> permutations.
\<close>

theorem pit_search_minimum:
  assumes "pit_inputs_ok ref infr criterion B"
  shows "\<exists>idx.
           permutation_loss ref infr criterion None True
             = Inr (Finite (spec_pit_loss ref infr criterion B), PermTensor idx)
         \<and> frontend_permutation_loss ref infr criterion None
             = Inr (Finite (spec_pit_loss ref infr criterion B), PermTensor idx)
         \<and> length idx = B
         \<and> (\<forall>b<B. 0 \<le> idx ! b \<and> nat (idx ! b) < fact (length ref)
                \<and> is_perm (length ref) (permutations [0..<length ref] ! nat (idx ! b))
                \<and> perm_distortion ref infr criterion
                     (permutations [0..<length ref] ! nat (idx ! b)) b
                   = min_distortion ref infr criterion b)
         \<and> sorted_wrt (<) (permutations [0..<length ref])
         \<and> set (permutations [0..<length ref]) = {p. is_perm (length ref) p}
         \<and> length (permutations [0..<length ref]) = fact (length ref)"
proof -
  let ?ps = "permutations [0..<length ref]"
  from permutation_loss_search[OF assms] obtain idx where
    r: "permutation_loss ref infr criterion None True =
          Inr (Finite (spec_pit_loss ref infr criterion B), PermTensor (map (\<lambda>b. int (idx b)) [0..<B]))"
    and i: "\<And>b. idx b < length ?ps"
    and m: "\<And>b. perm_distortion ref infr criterion (?ps ! idx b) b = min_distortion ref infr criterion b"
    by blast
  let ?idx = "map (\<lambda>b. int (idx b)) [0..<B]"
  have p: "is_perm (length ref) (?ps ! idx b)" for b
    using nth_mem[OF i[of b]] by (simp add: set_permutations)
  have "\<forall>b<B. 0 \<le> ?idx ! b \<and> nat (?idx ! b) < fact (length ref)
            \<and> is_perm (length ref) (?ps ! nat (?idx ! b))
            \<and> perm_distortion ref infr criterion (?ps ! nat (?idx ! b)) b
               = min_distortion ref infr criterion b"
    using i m p by (simp add: length_permutations)
  moreover have "length ?idx = B" by simp
  ultimately show ?thesis
    using r sorted_permutations[of "length ref"] set_permutations[of "length ref"]
      length_permutations[of "length ref"]
    unfolding frontend_permutation_loss_eq by blast
qed

theorem pit_search_minimum_witness:
  "pit_inputs_ok [[0, 1], [1, 5]] [[1, 5], [0, 1]] sq_err 2
   \<and> permutation_loss [[0, 1], [1, 5]] [[1, 5], [0, 1]] sq_err None True
       = Inr (Finite 0, PermTensor [1, 1])
   \<and> spec_pit_loss [[0, 1], [1, 5]] [[1, 5], [0, 1]] sq_err 2 = 0"
proof -
  have ok: "pit_inputs_ok [[0, 1], [1, 5]] [[1, 5], [0, 1]] sq_err 2"
    by (simp add: pit_inputs_ok_def sq_err_def)
  have ev: "permutation_loss [[0, 1], [1, 5]] [[1, 5], [0, 1]] sq_err None True
              = Inr (Finite 0, PermTensor [1, 1])"
    by (simp add: permutation_loss_def permutations_def pair_loss_def sq_err_def torch_stack_def
        torch_min_row_def tensor_mean_def tensor_add_def enumerate_eq_zip upt_rec numeral_eq_Suc)
  from pit_search_minimum[OF ok] ev
  have "spec_pit_loss [[0, 1], [1, 5]] [[1, 5], [0, 1]] sq_err 2 = 0" by auto
  with ok ev show ?thesis by simp
qed

text \<open>
  Claim C4. For \<open>K \<ge> 1\<close> and every criterion, the loss that \<open>_permutation_loss\<close> returns
  with \<open>use_pit=True\<close> and \<open>perm=None\<close> is at most the loss of the identity permutation,
  the batch mean of \<open>(1/K) * sum_i criterion(ref_i, hyp_i)\<close>, which is what the call with
  \<open>use_pit=False\<close> returns.
\<close>

theorem pit_loss_le_identity:
  assumes "pit_inputs_ok ref infr criterion B"
  shows "\<exists>l idx.
           permutation_loss ref infr criterion None True = Inr (Finite l, PermTensor idx)
         \<and> frontend_permutation_loss ref infr criterion None = Inr (Finite l, PermTensor idx)
         \<and> permutation_loss ref infr criterion None False
             = Inr (Finite (identity_loss ref infr criterion B), PermList [0..<length ref])
         \<and> l \<le> identity_loss ref infr criterion B"
proof -
  have B: "0 < B" using assms by (simp add: pit_inputs_ok_def)
  from permutation_loss_search[OF assms] obtain idx where
    "permutation_loss ref infr criterion None True =
       Inr (Finite (spec_pit_loss ref infr criterion B), PermTensor (map (\<lambda>b. int (idx b)) [0..<B]))"
    by blast
  then show ?thesis
    using permutation_loss_no_pit[OF assms, of None] spec_pit_loss_le_identity[OF B]
    unfolding frontend_permutation_loss_eq by blast
qed

theorem pit_loss_le_identity_witness:
  "pit_inputs_ok [[0, 1], [1, 5]] [[1, 5], [0, 1]] sq_err 2
   \<and> permutation_loss [[0, 1], [1, 5]] [[1, 5], [0, 1]] sq_err None True
       = Inr (Finite 0, PermTensor [1, 1])
   \<and> permutation_loss [[0, 1], [1, 5]] [[1, 5], [0, 1]] sq_err None False
       = Inr (Finite (17 / 2), PermList [0, 1])
   \<and> identity_loss [[0, 1], [1, 5]] [[1, 5], [0, 1]] sq_err 2 = 17 / 2"
proof -
  have ok: "pit_inputs_ok [[0, 1], [1, 5]] [[1, 5], [0, 1]] sq_err 2"
    by (simp add: pit_inputs_ok_def sq_err_def)
  have ev: "permutation_loss [[0, 1], [1, 5]] [[1, 5], [0, 1]] sq_err None True
              = Inr (Finite 0, PermTensor [1, 1])"
    by (simp add: permutation_loss_def permutations_def pair_loss_def sq_err_def torch_stack_def
        torch_min_row_def tensor_mean_def tensor_add_def enumerate_eq_zip upt_rec numeral_eq_Suc)
  have ev0: "permutation_loss [[0, 1], [1, 5]] [[1, 5], [0, 1]] sq_err None False
              = Inr (Finite (17 / 2), PermList [0, 1])"
    by (simp add: permutation_loss_def pair_loss_def sq_err_def
        tensor_mean_def tensor_add_def enumerate_eq_zip upt_rec numeral_eq_Suc)
  from pit_loss_le_identity[OF ok] ev0
  have "identity_loss [[0, 1], [1, 5]] [[1, 5], [0, 1]] sq_err 2 = 17 / 2" by auto
  with ok ev ev0 show ?thesis by simp
qed

text \<open>
  Claim C5. When an index tensor \<open>perm\<close> (one index into \<open>permutations(range(K))\<close> per batch
  element) is supplied to \<open>_permutation_loss\<close> with \<open>use_pit=True\<close>, the returned loss is the
  batch mean of \<open>(1/K) * sum_i criterion(ref_i, hyp_p(i))\<close> for exactly the permutation \<open>p\<close>
  that \<open>perm\<close> selects at each batch element; no minimum over other permutations enters the
  result, and \<open>perm\<close> is returned unchanged.
\<close>

theorem pit_fixed_permutation:
  assumes ok: "pit_inputs_ok ref infr criterion B"
    and len: "length perm = B"
    and rng: "\<forall>b<B. 0 \<le> perm ! b \<and> perm ! b < fact (length ref)"
  shows "permutation_loss ref infr criterion (Some perm) True
           = Inr (Finite (selected_loss ref infr criterion perm), PermTensor perm)
       \<and> frontend_permutation_loss ref infr criterion (Some perm)
           = Inr (Finite (selected_loss ref infr criterion perm), PermTensor perm)"
proof -
  let ?ps = "permutations [0..<length ref]"
  let ?f = "perm_distortion ref infr criterion"
  have B: "0 < B" using ok by (simp add: pit_inputs_ok_def)
  have r: "0 \<le> perm ! b \<and> nat (perm ! b) < length ?ps" if "b < B" for b
  proof -
    from rng that have a: "0 \<le> perm ! b" "perm ! b < fact (length ref)" by auto
    have "int (nat (perm ! b)) < int (fact (length ref))" using a by simp
    then have "nat (perm ! b) < fact (length ref)" by (simp only: of_nat_less_iff)
    then show ?thesis using a by (simp add: length_permutations)
  qed
  have ir: "index_rows (map (\<lambda>b. map (\<lambda>p. ?f p b) ?ps) [0..<B]) perm
              = Inr (map (\<lambda>b. ?f (?ps ! nat (perm ! b)) b) [0..<B])"
    by (rule index_rows_ok[OF len r])
  have tm: "tensor_mean (map (\<lambda>b. ?f (?ps ! nat (perm ! b)) b) [0..<B])
              = Finite (selected_loss ref infr criterion perm)"
    using B len by (simp add: tensor_mean_def selected_loss_def)
  have "permutation_loss ref infr criterion (Some perm) True
           = Inr (Finite (selected_loss ref infr criterion perm), PermTensor perm)"
    unfolding permutation_loss_def Let_def
    by (simp add: pit_columns[OF ok] pit_stack[OF permutations_nonempty] ir tm)
  then show ?thesis unfolding frontend_permutation_loss_eq by simp
qed

theorem pit_fixed_permutation_witness:
  "pit_inputs_ok [[0, 1], [1, 5]] [[1, 5], [0, 1]] sq_err 2
   \<and> length [0, 1 :: int] = 2
   \<and> permutation_loss [[0, 1], [1, 5]] [[1, 5], [0, 1]] sq_err (Some [0, 1]) True
       = Inr (Finite (1 / 2), PermTensor [0, 1])
   \<and> selected_loss [[0, 1], [1, 5]] [[1, 5], [0, 1]] sq_err [0, 1] = 1 / 2"
proof -
  have ok: "pit_inputs_ok [[0, 1], [1, 5]] [[1, 5], [0, 1]] sq_err 2"
    by (simp add: pit_inputs_ok_def sq_err_def)
  have len: "length [0, 1 :: int] = 2" by simp
  have rng: "\<forall>b<2. 0 \<le> [0, 1 :: int] ! b \<and> [0, 1 :: int] ! b < fact (length [[0, 1], [1, 5 :: real]])"
    by (simp add: less_Suc_eq numeral_2_eq_2 fact_numeral)
  have ev: "permutation_loss [[0, 1], [1, 5]] [[1, 5], [0, 1]] sq_err (Some [0, 1]) True
              = Inr (Finite (1 / 2), PermTensor [0, 1])"
    by (simp add: permutation_loss_def permutations_def pair_loss_def sq_err_def torch_stack_def
        index_rows_def py_index_def tensor_mean_def tensor_add_def enumerate_eq_zip upt_rec numeral_eq_Suc)
  from pit_fixed_permutation[OF ok len rng] ev
  have "selected_loss [[0, 1], [1, 5]] [[1, 5], [0, 1]] sq_err [0, 1] = 1 / 2" by simp
  with ok len ev show ?thesis by blast
qed

text \<open>
  Claim C9. For \<open>K \<ge> 1\<close> and every permutation \<open>sigma\<close> of the hypothesis list, running
  \<open>_permutation_loss\<close> with \<open>use_pit=True\<close> and \<open>perm=None\<close> on the reordered hypotheses
  returns the same minimum loss as on the original ones. The returned indices differ
  correspondingly: the permutation returned for the reordered list, composed with \<open>sigma\<close>,
  is a minimising permutation of the original list at every batch element.
\<close>

theorem pit_invariant_under_hypothesis_order:
  assumes ok: "pit_inputs_ok ref infr criterion B"
    and s: "is_perm (length ref) sigma"
  shows "\<exists>l idx idx'.
           permutation_loss ref infr criterion None True = Inr (Finite l, PermTensor idx)
         \<and> permutation_loss ref (permute_hyps sigma infr) criterion None True
             = Inr (Finite l, PermTensor idx')
         \<and> frontend_permutation_loss ref infr criterion None = Inr (Finite l, PermTensor idx)
         \<and> frontend_permutation_loss ref (permute_hyps sigma infr) criterion None
             = Inr (Finite l, PermTensor idx')
         \<and> length idx' = B
         \<and> (\<forall>b<B. perm_distortion ref infr criterion
                      (compose_perm sigma (permutations [0..<length ref] ! nat (idx' ! b))) b
                    = min_distortion ref infr criterion b)"
proof -
  let ?ps = "permutations [0..<length ref]"
  let ?infr' = "permute_hyps sigma infr"
  have len: "length infr = length ref" using ok by (simp add: pit_inputs_ok_def)
  have ok': "pit_inputs_ok ref ?infr' criterion B" by (rule pit_inputs_ok_permute[OF ok s])
  from permutation_loss_search[OF ok] obtain idx where
    r: "permutation_loss ref infr criterion None True =
          Inr (Finite (spec_pit_loss ref infr criterion B), PermTensor (map (\<lambda>b. int (idx b)) [0..<B]))"
    by blast
  from permutation_loss_search[OF ok'] obtain idx' where
    r': "permutation_loss ref ?infr' criterion None True =
          Inr (Finite (spec_pit_loss ref ?infr' criterion B), PermTensor (map (\<lambda>b. int (idx' b)) [0..<B]))"
    and i': "\<And>b. idx' b < length ?ps"
    and m': "\<And>b. perm_distortion ref ?infr' criterion (?ps ! idx' b) b = min_distortion ref ?infr' criterion b"
    by blast
  have p': "is_perm (length ref) (?ps ! idx' b)" for b
    using nth_mem[OF i'[of b]] by (simp add: set_permutations)
  have c: "perm_distortion ref infr criterion (compose_perm sigma (?ps ! idx' b)) b
             = min_distortion ref infr criterion b" for b
    using m'[of b] perm_distortion_permute[OF s p' len, of criterion b]
      min_distortion_permute[OF s len, of criterion b] by simp
  let ?idx' = "map (\<lambda>b. int (idx' b)) [0..<B]"
  have "\<forall>b<B. perm_distortion ref infr criterion (compose_perm sigma (?ps ! nat (?idx' ! b))) b
               = min_distortion ref infr criterion b"
    using c by simp
  moreover have "length ?idx' = B" by simp
  moreover have "permutation_loss ref ?infr' criterion None True =
          Inr (Finite (spec_pit_loss ref infr criterion B), PermTensor ?idx')"
    using r' by (simp only: spec_pit_loss_permute[OF s len])
  ultimately show ?thesis using r unfolding frontend_permutation_loss_eq by blast
qed

theorem pit_invariant_under_hypothesis_order_witness:
  "pit_inputs_ok [[0, 1], [1, 5]] [[1, 5], [0, 1]] sq_err 2
   \<and> is_perm (length [[0, 1], [1, 5 :: real]]) [1, 0]
   \<and> permute_hyps [1, 0] [[1, 5], [0, 1 :: real]] = [[0, 1], [1, 5]]
   \<and> permutation_loss [[0, 1], [1, 5]] [[1, 5], [0, 1]] sq_err None True
       = Inr (Finite 0, PermTensor [1, 1])
   \<and> permutation_loss [[0, 1], [1, 5]] (permute_hyps [1, 0] [[1, 5], [0, 1]]) sq_err None True
       = Inr (Finite 0, PermTensor [0, 0])"
proof -
  have ok: "pit_inputs_ok [[0, 1], [1, 5]] [[1, 5], [0, 1]] sq_err 2"
    by (simp add: pit_inputs_ok_def sq_err_def)
  have s: "is_perm (length [[0, 1], [1, 5 :: real]]) [1, 0]"
    by (auto simp: is_perm_def)
  have ph: "permute_hyps [1, 0] [[1, 5], [0, 1 :: real]] = [[0, 1], [1, 5]]"
    by (simp add: permute_hyps_def upt_rec numeral_eq_Suc)
  have ev: "permutation_loss [[0, 1], [1, 5]] [[1, 5], [0, 1]] sq_err None True
              = Inr (Finite 0, PermTensor [1, 1])"
    by (simp add: permutation_loss_def permutations_def pair_loss_def sq_err_def torch_stack_def
        torch_min_row_def tensor_mean_def tensor_add_def enumerate_eq_zip upt_rec numeral_eq_Suc)
  have ev': "permutation_loss [[0, 1], [1, 5]] [[0, 1], [1, 5]] sq_err None True
              = Inr (Finite 0, PermTensor [0, 0])"
    by (simp add: permutation_loss_def permutations_def pair_loss_def sq_err_def torch_stack_def
        torch_min_row_def tensor_mean_def tensor_add_def enumerate_eq_zip upt_rec numeral_eq_Suc)
  from pit_invariant_under_hypothesis_order[OF ok s] obtain l idx idx' where
    "permutation_loss [[0, 1], [1, 5]] [[1, 5], [0, 1]] sq_err None True = Inr (Finite l, PermTensor idx)"
    "permutation_loss [[0, 1], [1, 5]] (permute_hyps [1, 0] [[1, 5], [0, 1]]) sq_err None True
       = Inr (Finite l, PermTensor idx')" by blast
  then have "permutation_loss [[0, 1], [1, 5]] (permute_hyps [1, 0] [[1, 5], [0, 1]]) sq_err None True
       = Inr (Finite 0, PermTensor [0, 0])"
    unfolding ph ev ev' by simp
  with ok s ph ev show ?thesis by blast
qed

section \<open>Lemmas about the loop over the speakers\<close>

lemma pop_insert_simple: "i < length xs \<Longrightarrow> take i xs @ xs ! i # drop (Suc i) xs = xs"
  by (rule id_take_nth_drop[symmetric])

lemma speaker_design_mvdr:
  assumes "beamformer_type self = ''mvdr''" "i < length ps"
  shows "speaker_design self (Shared n) ps i = Inr ((ps ! i, py_sum (others i ps) + n), ps)"
  using assms by (simp add: speaker_design_def Let_def pop_insert_simple others_def)

lemma speaker_design_mpdr:
  assumes "beamformer_type self = ''mpdr''" "i < length ps"
  shows "speaker_design self (Shared n) ps i = Inr ((ps ! i, n), ps)"
  using assms by (simp add: speaker_design_def Let_def pop_insert_simple)

lemma speaker_design_wpd:
  assumes "beamformer_type self = ''wpd''" "i < length ps" "i < length ns"
  shows "speaker_design self (PerSpeaker ns) ps i = Inr ((ps ! i, ns ! i), ps)"
  using assms by (simp add: speaker_design_def Let_def pop_insert_simple)

lemma apply_beamforming_value:
  assumes bt: "beamformer_type self \<in> {''mvdr'', ''mpdr'', ''wpd''}"
    and ref: "(if ref_channel self < 0 then attention_reference ops ps ilens
               else onehot_reference ops data (ref_channel self)) = Inr u"
  shows "apply_beamforming ops self data ilens ps pn (beamformer_type self) =
           (if beamformer_type self = ''wpd''
            then Inr (perform_WPD_filtering ops (get_WPD_filter_v2 ops ps pn u) data
                        (bdelay self) (btaps self),
                      get_WPD_filter_v2 ops ps pn u)
            else Inr (apply_beamforming_vector ops (get_mvdr_vector ops ps pn u) data,
                      get_mvdr_vector ops ps pn u))"
proof -
  have "apply_beamforming ops self data ilens ps pn (beamformer_type self) =
          (if beamformer_type self \<in> set [''mpdr'', ''mvdr'']
           then (let ws = get_mvdr_vector ops ps pn u
                 in Inr (apply_beamforming_vector ops ws data, ws))
           else if beamformer_type self = ''wpd''
           then (let ws = get_WPD_filter_v2 ops ps pn u
                 in Inr (perform_WPD_filtering ops ws data (bdelay self) (btaps self), ws))
           else Inl (ValueError (''Not supporting beamformer_type='' @ beamformer_type self)))"
    unfolding apply_beamforming_def ref by simp
  then show ?thesis using bt by (auto simp: Let_def)
qed

lemma speaker_loop_value:
  assumes bt: "beamformer_type self \<in> {''mvdr'', ''mpdr'', ''wpd''}"
    and des: "\<And>i. i \<in> set idxs \<Longrightarrow> speaker_design self psd_n ps i = Inr ((ps ! i, g i), ps)"
    and ref: "\<And>i. i \<in> set idxs \<Longrightarrow>
                (if ref_channel self < 0 then attention_reference ops (ps ! i) ilens
                 else onehot_reference ops data (ref_channel self)) = Inr (u i)"
  shows "speaker_loop ops self data ilens psd_n ps idxs =
           Inr (map (\<lambda>i. transpose_enhanced ops
                      (if beamformer_type self = ''wpd''
                       then perform_WPD_filtering ops
                              (get_WPD_filter_v2 ops (ps ! i) (g i) (u i)) data
                              (bdelay self) (btaps self)
                       else apply_beamforming_vector ops
                              (get_mvdr_vector ops (ps ! i) (g i) (u i)) data))
                    idxs)"
  using des ref
proof (induction idxs)
  case Nil
  then show ?case by simp
next
  case (Cons i rest)
  have d: "speaker_design self psd_n ps i = Inr ((ps ! i, g i), ps)" using Cons.prems(1) by simp
  have r: "(if ref_channel self < 0 then attention_reference ops (ps ! i) ilens
            else onehot_reference ops data (ref_channel self)) = Inr (u i)"
    using Cons.prems(2) by simp
  note a = apply_beamforming_value[OF bt r, of "g i"]
  have ih: "speaker_loop ops self data ilens psd_n ps rest =
              Inr (map (\<lambda>i. transpose_enhanced ops
                         (if beamformer_type self = ''wpd''
                          then perform_WPD_filtering ops
                                 (get_WPD_filter_v2 ops (ps ! i) (g i) (u i)) data
                                 (bdelay self) (btaps self)
                          else apply_beamforming_vector ops
                                 (get_mvdr_vector ops (ps ! i) (g i) (u i)) data))
                       rest)"
    using Cons.IH Cons.prems by simp
  show ?case
  proof (cases "beamformer_type self = ''wpd''")
    case True
    then show ?thesis using d a ih by simp
  next
    case False
    then show ?thesis using d a ih by simp
  qed
qed

section \<open>Claims about DNN\_Beamformer\<close>

text \<open>
  Claim C3, as amended. In \<open>DNN_Beamformer.forward\<close> with more than two masks (the last one
  the noise mask), the signal returned for every target speaker \<open>i\<close> is the output of a
  filter designed with the speaker's own speech covariance as the target covariance. The
  interference covariance depends on the beamformer type: for \<open>mvdr\<close> it is the sum of all
  other speakers' speech covariances plus the covariance of the noise mask; for \<open>mpdr\<close> it
  is the covariance of the observed signal, the same for every speaker; for \<open>wpd\<close> it is
  the covariance of the delay-expanded signal weighted by the inverse power of speaker
  \<open>i\<close>. Here \<open>u i\<close> is the reference vector that the reference module returns for
  speaker \<open>i\<close>. The claim as stated, the sum for all three types, fails for \<open>mpdr\<close>: see
  the counterexample after the witness.
\<close>

theorem multi_speaker_design_inputs:
  fixes ops :: "('d, 'm, 'p::monoid_add, 'i, 'u, 'w, 'e) beamformer_ops"
  assumes est: "mask_estimator ops (permute_data ops data0) ilens = Inr masks"
    and n: "nmask self = int (length masks)" "2 < length masks"
    and bt: "beamformer_type self \<in> {''mvdr'', ''mpdr'', ''wpd''}"
    and ref: "\<And>i. i < length masks - 1 \<Longrightarrow>
                (if ref_channel self < 0
                 then attention_reference ops
                        (get_power_spectral_density_matrix ops (permute_data ops data0) (masks ! i))
                        ilens
                 else onehot_reference ops (permute_data ops data0) (ref_channel self))
                = Inr (u i)"
  shows "forward ops self data0 ilens =
           Inr (Multi
                  (map (\<lambda>i. transpose_enhanced ops
                          (if beamformer_type self = ''wpd''
                           then perform_WPD_filtering ops
                                  (get_WPD_filter_v2 ops
                                     (get_power_spectral_density_matrix ops
                                        (permute_data ops data0) (masks ! i))
                                     (get_covariances ops (permute_data ops data0)
                                        (inverse_power ops (permute_data ops data0)
                                           (masks ! i) (eps self))
                                        (bdelay self) (btaps self))
                                     (u i))
                                  (permute_data ops data0) (bdelay self) (btaps self)
                           else apply_beamforming_vector ops
                                  (get_mvdr_vector ops
                                     (get_power_spectral_density_matrix ops
                                        (permute_data ops data0) (masks ! i))
                                     (if beamformer_type self = ''mvdr''
                                      then claimed_interference ops (permute_data ops data0) masks i
                                      else observed_covariance ops (permute_data ops data0))
                                     (u i))
                                  (permute_data ops data0)))
                       [0..<length masks - 1]),
                ilens, masks)"
proof -
  let ?data = "permute_data ops data0"
  let ?K = "length masks - 1"
  let ?ps = "map (get_power_spectral_density_matrix ops ?data) (butlast masks)"
  let ?g = "\<lambda>i. if beamformer_type self = ''mvdr''
                 then claimed_interference ops ?data masks i
                 else if beamformer_type self = ''mpdr''
                 then observed_covariance ops ?data
                 else get_covariances ops ?data (inverse_power ops ?data (masks ! i) (eps self))
                        (bdelay self) (btaps self)"
  let ?out = "\<lambda>p i. transpose_enhanced ops
                 (if beamformer_type self = ''wpd''
                  then perform_WPD_filtering ops (get_WPD_filter_v2 ops (p i) (?g i) (u i)) ?data
                         (bdelay self) (btaps self)
                  else apply_beamforming_vector ops (get_mvdr_vector ops (p i) (?g i) (u i)) ?data)"
  have ne: "masks \<noteq> []" and n2: "nmask self \<noteq> 2" using n by auto
  have idx: "nat (nmask self - 1) = ?K" using n by simp
  have psi: "?ps ! i = get_power_spectral_density_matrix ops ?data (masks ! i)" if "i < ?K" for i
    using that by (simp add: nth_butlast)
  have bl: "butlast masks ! i = masks ! i" if "i < ?K" for i
    using that by (simp add: nth_butlast)
  obtain psd_n where pn: "multi_psd_n ops self ?data (butlast masks) (last masks) = Inr psd_n"
    and des: "\<And>i. i \<in> set [0..<?K] \<Longrightarrow> speaker_design self psd_n ?ps i = Inr ((?ps ! i, ?g i), ?ps)"
  proof -
    consider "beamformer_type self = ''mvdr''" | "beamformer_type self = ''mpdr''"
      | "beamformer_type self = ''wpd''" using bt by auto
    then show ?thesis
    proof cases
      case 1
      show ?thesis
      proof (rule that)
        show "multi_psd_n ops self ?data (butlast masks) (last masks)
                = Inr (Shared (get_power_spectral_density_matrix ops ?data (last masks)))"
          using 1 by (simp add: multi_psd_n_def)
      next
        fix i assume "i \<in> set [0..<?K]"
        then have "i < length ?ps" by simp
        from speaker_design_mvdr[OF 1 this]
        show "speaker_design self (Shared (get_power_spectral_density_matrix ops ?data (last masks))) ?ps i
                = Inr ((?ps ! i, ?g i), ?ps)"
          using 1 by (simp add: claimed_interference_def)
      qed
    next
      case 2
      show ?thesis
      proof (rule that)
        show "multi_psd_n ops self ?data (butlast masks) (last masks)
                = Inr (Shared (observed_covariance ops ?data))"
          using 2 by (simp add: multi_psd_n_def)
      next
        fix i assume "i \<in> set [0..<?K]"
        then have "i < length ?ps" by simp
        from speaker_design_mpdr[OF 2 this]
        show "speaker_design self (Shared (observed_covariance ops ?data)) ?ps i
                = Inr ((?ps ! i, ?g i), ?ps)"
          using 2 by simp
      qed
    next
      case 3
      let ?ns = "map (\<lambda>inv_ps. get_covariances ops ?data inv_ps (bdelay self) (btaps self))
                    (map (\<lambda>m. inverse_power ops ?data m (eps self)) (butlast masks))"
      show ?thesis
      proof (rule that)
        show "multi_psd_n ops self ?data (butlast masks) (last masks) = Inr (PerSpeaker ?ns)"
          using 3 by (simp add: multi_psd_n_def)
      next
        fix i assume "i \<in> set [0..<?K]"
        then have i: "i < ?K" by simp
        then have "i < length ?ps" "i < length ?ns" by simp_all
        from speaker_design_wpd[OF 3 this]
        show "speaker_design self (PerSpeaker ?ns) ?ps i = Inr ((?ps ! i, ?g i), ?ps)"
          using 3 i by (simp add: bl)
      qed
    qed
  qed
  have rf: "(if ref_channel self < 0 then attention_reference ops (?ps ! i) ilens
             else onehot_reference ops ?data (ref_channel self)) = Inr (u i)"
    if "i \<in> set [0..<?K]" for i
  proof -
    from that have i: "i < ?K" by simp
    show ?thesis using ref[OF i] by (simp only: psi[OF i])
  qed
  have lp: "speaker_loop ops self ?data ilens psd_n ?ps [0..<?K]
              = Inr (map (?out (\<lambda>i. ?ps ! i)) [0..<?K])"
    by (rule speaker_loop_value[OF bt des rf])
  have same: "map (?out (\<lambda>i. ?ps ! i)) [0..<?K]
                = map (?out (\<lambda>i. get_power_spectral_density_matrix ops ?data (masks ! i))) [0..<?K]"
  proof (rule map_cong[OF refl])
    fix i assume "i \<in> set [0..<?K]"
    then have "i < ?K" by simp
    then show "?out (\<lambda>i. ?ps ! i) i
                 = ?out (\<lambda>i. get_power_spectral_density_matrix ops ?data (masks ! i)) i"
      by (simp only: psi)
  qed
  have fw: "forward ops self data0 ilens
              = Inr (Multi (map (?out (\<lambda>i. get_power_spectral_density_matrix ops ?data (masks ! i)))
                              [0..<?K]), ilens, masks)"
    unfolding forward_def Let_def using est n(1) n2 ne pn lp idx same by simp
  consider "beamformer_type self = ''mvdr''" | "beamformer_type self = ''mpdr''"
    | "beamformer_type self = ''wpd''" using bt by auto
  then show ?thesis
  proof cases
    case 1
    then show ?thesis using fw by simp
  next
    case 2
    then show ?thesis using fw by simp
  next
    case 3
    then show ?thesis using fw by simp
  qed
qed

theorem multi_speaker_design_inputs_witness:
  "mask_estimator (sym_ops [''speech1'', ''speech2'', ''noise''])
       (permute_data (sym_ops [''speech1'', ''speech2'', ''noise'']) Signal) [16000]
     = Inr [''speech1'', ''speech2'', ''noise'']
   \<and> forward (sym_ops [''speech1'', ''speech2'', ''noise''])
        \<lparr>ref_channel = 0, nmask = 3, beamformer_type = ''mvdr'', eps = 1 / 10 ^ 7,
         btaps = 5, bdelay = 3\<rparr> Signal [16000]
       = Inr (Multi
                [Transposed (Beamformed
                   (MVDR_vector {#''speech1''#} {#''speech2'', ''noise''#} (OneHot 0))
                   (Permuted Signal)),
                 Transposed (Beamformed
                   (MVDR_vector {#''speech2''#} {#''speech1'', ''noise''#} (OneHot 0))
                   (Permuted Signal))],
              [16000], [''speech1'', ''speech2'', ''noise''])"
proof -
  let ?M = "[''speech1'', ''speech2'', ''noise'']"
  let ?self = "\<lparr>ref_channel = 0, nmask = 3, beamformer_type = ''mvdr'', eps = 1 / 10 ^ 7,
                 btaps = 5, bdelay = 3\<rparr>"
  have est: "mask_estimator (sym_ops ?M) (permute_data (sym_ops ?M) Signal) [16000] = Inr ?M"
    by (simp add: sym_ops_def)
  have n: "nmask ?self = int (length ?M)" "2 < length ?M" by simp_all
  have bt: "beamformer_type ?self \<in> {''mvdr'', ''mpdr'', ''wpd''}" by simp
  have ref: "(if ref_channel ?self < 0
              then attention_reference (sym_ops ?M)
                     (get_power_spectral_density_matrix (sym_ops ?M)
                        (permute_data (sym_ops ?M) Signal) (?M ! i)) [16000]
              else onehot_reference (sym_ops ?M) (permute_data (sym_ops ?M) Signal)
                     (ref_channel ?self))
             = Inr ((\<lambda>i. OneHot 0) i)" if "i < length ?M - 1" for i
    by (simp add: sym_ops_def)
  have cl: "claimed_interference (sym_ops ?M) (Permuted Signal) ?M 0 = {#''speech2'', ''noise''#}"
    "claimed_interference (sym_ops ?M) (Permuted Signal) ?M (Suc 0) = {#''speech1'', ''noise''#}"
    by (simp_all add: claimed_interference_def others_def py_sum_def sym_ops_def)
  have pd: "permute_data (sym_ops ?M) Signal = Permuted Signal" by (simp add: sym_ops_def)
  have idx: "[0..<length ?M - 1] = [0, 1]" by (simp add: upt_rec)
  have sel: "transpose_enhanced (sym_ops ?M) = Transposed"
    "apply_beamforming_vector (sym_ops ?M) = Beamformed"
    "get_mvdr_vector (sym_ops ?M) = MVDR_vector"
    "get_power_spectral_density_matrix (sym_ops ?M) d m = {#m#}" for d m
    by (simp_all add: sym_ops_def)
  from multi_speaker_design_inputs[of "sym_ops ?M" Signal "[16000]" ?M ?self "\<lambda>i. OneHot 0",
      OF est n bt ref]
  have "forward (sym_ops ?M) ?self Signal [16000] =
          Inr (Multi
                 [Transposed (Beamformed
                    (MVDR_vector {#''speech1''#} {#''speech2'', ''noise''#} (OneHot 0))
                    (Permuted Signal)),
                  Transposed (Beamformed
                    (MVDR_vector {#''speech2''#} {#''speech1'', ''noise''#} (OneHot 0))
                    (Permuted Signal))],
               [16000], ?M)"
    unfolding idx pd by (simp add: cl sel)
  with est show ?thesis by simp
qed

theorem multi_speaker_interference_counterexample:
  "forward (sym_ops [''speech1'', ''speech2'', ''noise''])
        \<lparr>ref_channel = 0, nmask = 3, beamformer_type = ''mpdr'', eps = 1 / 10 ^ 7,
         btaps = 5, bdelay = 3\<rparr> Signal [16000]
       = Inr (Multi
                [Transposed (Beamformed
                   (MVDR_vector {#''speech1''#} {#''observed''#} (OneHot 0))
                   (Permuted Signal)),
                 Transposed (Beamformed
                   (MVDR_vector {#''speech2''#} {#''observed''#} (OneHot 0))
                   (Permuted Signal))],
              [16000], [''speech1'', ''speech2'', ''noise''])
   \<and> claimed_interference (sym_ops [''speech1'', ''speech2'', ''noise'']) (Permuted Signal)
        [''speech1'', ''speech2'', ''noise''] 0 = {#''speech2'', ''noise''#}
   \<and> {#''speech2'', ''noise''#} \<noteq> {#''observed''#}"
  by (simp add: forward_def sym_ops_def multi_psd_n_def speaker_design_def apply_beamforming_def
        claimed_interference_def others_def py_sum_def upt_rec numeral_eq_Suc Let_def)

text \<open>
  Claim C6. \<open>DNN_Beamformer.__init__\<close> raises a ValueError for a beamformer type outside
  \<open>mvdr\<close>, \<open>mpdr\<close>, \<open>wpd\<close> and passes the check for each of the three, so an object, the
  only thing \<open>forward\<close> can be called on, exists only for a supported type.
\<close>

theorem init_checks_beamformer_type:
  "DNN_Beamformer_init (Inr ()) (Inr ()) n rc bt e ta de =
     (if bt \<in> {''mvdr'', ''mpdr'', ''wpd''}
      then Inr \<lparr>ref_channel = rc, nmask = n, beamformer_type = bt, eps = e, btaps = ta, bdelay = de\<rparr>
      else Inl (ValueError (''Not supporting beamformer_type='' @ bt)))
   \<and> ((\<exists>self. DNN_Beamformer_init mi ri n rc bt e ta de = Inr self)
        = (mi = Inr () \<and> ri = Inr () \<and> bt \<in> {''mvdr'', ''mpdr'', ''wpd''}))"
  by (auto simp: DNN_Beamformer_init_def split: sum.splits)

theorem init_checks_beamformer_type_witness:
  "DNN_Beamformer_init (Inr ()) (Inr ()) 2 (- 1) ''gev'' (1 / 10 ^ 7) 5 3
     = Inl (ValueError ''Not supporting beamformer_type=gev'')
   \<and> DNN_Beamformer_init (Inr ()) (Inr ()) 2 (- 1) ''wpd'' (1 / 10 ^ 7) 5 3
     = Inr \<lparr>ref_channel = - 1, nmask = 2, beamformer_type = ''wpd'', eps = 1 / 10 ^ 7,
            btaps = 5, bdelay = 3\<rparr>"
  using init_checks_beamformer_type[of 2 "- 1" "''gev''" "1 / 10 ^ 7" 5 3]
    init_checks_beamformer_type[of 2 "- 1" "''wpd''" "1 / 10 ^ 7" 5 3]
  by simp

section \<open>Lemmas about the mask labels\<close>

lemma mask_loop_ok:
  assumes "\<And>r ml. r \<in> set rs \<Longrightarrow> body ml r = Inr (g r)"
  shows "mask_loop body rs acc = Inr (acc @ map g rs)"
  using assms by (induction rs arbitrary: acc) auto

lemma mask_loop_cong:
  assumes "\<And>r ml. body ml r = body' ml r"
  shows "mask_loop body rs acc = mask_loop body' rs acc"
  using assms by (induction rs arbitrary: acc) (auto split: sum.splits)

lemma py_eq_list_str: "\<not> py_eq (PyList xs) (PyStr s)"
  by simp

lemma mask_of_ref_npsm:
  "mask_of_ref ''NPSM'' mix_spec ref_spec ml r = mask_of_ref ''PSM'' mix_spec ref_spec ml r"
  by (simp add: mask_of_ref_def)

lemma frontend_mask_of_ref_npsm:
  "frontend_mask_of_ref ''NPSM'' mix_spec ref_spec ml r
     = frontend_mask_of_ref ''PSM'' mix_spec ref_spec ml r"
  by (simp add: frontend_mask_of_ref_def)

lemma mask_of_ref_npsm_value:
  assumes "length r = length mix_spec"
  shows "mask_of_ref ''NPSM'' mix_spec ref_spec ml r
           = Inr (map2 (\<lambda>x m. clamp (- 1) 1 (psm_entry x m)) r mix_spec)"
  using assms by (simp add: mask_of_ref_def tensor_op_def map_zip_map2 comp_def case_prod_unfold)

lemma frontend_mask_of_ref_npsm_value:
  assumes "length r = length mix_spec"
  shows "frontend_mask_of_ref ''NPSM'' mix_spec ref_spec ml r
           = Inr (RealMask (map2 (\<lambda>x m. clamp (- 1) 1 (psm_entry x m)) r mix_spec))"
  using assms
  by (simp add: frontend_mask_of_ref_def tensor_op_def map_zip_map2 comp_def case_prod_unfold)

lemma psm_entry_example: "psm_entry (- 1) 1 = - ((10000000 / 10000001) ^ 3)"
  by (simp add: psm_entry_def cos_theta_def mask_eps_def Let_def power3_eq_cube)

section \<open>Claim about the mask labels\<close>

text \<open>
  Claim C2. In \<open>_create_mask_label\<close> the test \<open>mask_label == "NPSM"\<close> compares the list of
  masks built so far with a string and is false whatever the list holds. So for mask type
  \<open>NPSM\<close> both models return exactly what they return for \<open>PSM\<close>; for spectra of one shape
  that is the phase-sensitive mask clamped to \<open>[-1, 1]\<close> entry by entry, never the one
  clamped to \<open>[0, 1]\<close>.
\<close>

theorem npsm_clamped_like_psm:
  "create_mask_label mix_spec ref_spec ''NPSM'' = create_mask_label mix_spec ref_spec ''PSM''
   \<and> frontend_create_mask_label mix_spec ref_spec ''NPSM''
       = frontend_create_mask_label mix_spec ref_spec ''PSM''
   \<and> ((\<forall>r \<in> set ref_spec. length r = length mix_spec) \<longrightarrow>
         create_mask_label mix_spec ref_spec ''NPSM''
           = Inr (map (\<lambda>r. map2 (\<lambda>x m. clamp (- 1) 1 (psm_entry x m)) r mix_spec) ref_spec)
       \<and> frontend_create_mask_label mix_spec ref_spec ''NPSM''
           = Inr (map (\<lambda>r. RealMask (map2 (\<lambda>x m. clamp (- 1) 1 (psm_entry x m)) r mix_spec))
                      ref_spec))"
proof (intro conjI impI)
  show "create_mask_label mix_spec ref_spec ''NPSM'' = create_mask_label mix_spec ref_spec ''PSM''"
    unfolding create_mask_label_def
    using mask_loop_cong[of "mask_of_ref ''NPSM'' mix_spec ref_spec"
        "mask_of_ref ''PSM'' mix_spec ref_spec" ref_spec "[]", OF mask_of_ref_npsm]
    by simp
  show "frontend_create_mask_label mix_spec ref_spec ''NPSM''
       = frontend_create_mask_label mix_spec ref_spec ''PSM''"
    unfolding frontend_create_mask_label_def
    using mask_loop_cong[of "frontend_mask_of_ref ''NPSM'' mix_spec ref_spec"
        "frontend_mask_of_ref ''PSM'' mix_spec ref_spec" ref_spec "[]", OF frontend_mask_of_ref_npsm]
    by simp
next
  assume a: "\<forall>r \<in> set ref_spec. length r = length mix_spec"
  have "mask_loop (mask_of_ref ''NPSM'' mix_spec ref_spec) ref_spec []
          = Inr ([] @ map (\<lambda>r. map2 (\<lambda>x m. clamp (- 1) 1 (psm_entry x m)) r mix_spec) ref_spec)"
    by (rule mask_loop_ok) (use a in \<open>simp add: mask_of_ref_npsm_value\<close>)
  then show "create_mask_label mix_spec ref_spec ''NPSM''
           = Inr (map (\<lambda>r. map2 (\<lambda>x m. clamp (- 1) 1 (psm_entry x m)) r mix_spec) ref_spec)"
    by (simp add: create_mask_label_def)
  have "mask_loop (frontend_mask_of_ref ''NPSM'' mix_spec ref_spec) ref_spec []
          = Inr ([] @ map (\<lambda>r. RealMask (map2 (\<lambda>x m. clamp (- 1) 1 (psm_entry x m)) r mix_spec)) ref_spec)"
    by (rule mask_loop_ok) (use a in \<open>simp add: frontend_mask_of_ref_npsm_value\<close>)
  then show "frontend_create_mask_label mix_spec ref_spec ''NPSM''
           = Inr (map (\<lambda>r. RealMask (map2 (\<lambda>x m. clamp (- 1) 1 (psm_entry x m)) r mix_spec)) ref_spec)"
    by (simp add: frontend_create_mask_label_def)
qed

theorem npsm_clamped_like_psm_witness:
  "create_mask_label [1] [[- 1]] ''NPSM'' = Inr [[- ((10000000 / 10000001) ^ 3)]]
   \<and> create_mask_label [1] [[- 1]] ''PSM'' = Inr [[- ((10000000 / 10000001) ^ 3)]]
   \<and> frontend_create_mask_label [1] [[- 1]] ''NPSM''
       = Inr [RealMask [- ((10000000 / 10000001) ^ 3)]]
   \<and> - ((10000000 / 10000001) ^ 3) < (0 :: real)
   \<and> clamp 0 1 (- ((10000000 / 10000001) ^ 3)) = 0"
proof -
  have le: "(10000000 / 10000001) ^ 3 \<le> (1 :: real)" by (rule power_le_one) simp_all
  have pos: "0 < (10000000 / 10000001 :: real) ^ 3" by simp
  have c: "clamp (- 1) 1 (- ((10000000 / 10000001) ^ 3)) = - ((10000000 / 10000001) ^ 3)"
    using le pos unfolding clamp_def by linarith
  have c0: "clamp 0 1 (- ((10000000 / 10000001) ^ 3)) = 0"
    using pos unfolding clamp_def by linarith
  note t = npsm_clamped_like_psm[of "[1]" "[[- 1]]"]
  have e: "create_mask_label [1] [[- 1]] ''NPSM'' = create_mask_label [1] [[- 1]] ''PSM''"
    using t by (rule conjunct1)
  have v: "create_mask_label [1] [[- 1]] ''NPSM'' = Inr [[- ((10000000 / 10000001) ^ 3)]]"
    "frontend_create_mask_label [1] [[- 1]] ''NPSM'' = Inr [RealMask [- ((10000000 / 10000001) ^ 3)]]"
    using t[THEN conjunct2, THEN conjunct2] psm_entry_example c by simp_all
  have v': "create_mask_label [1] [[- 1]] ''PSM'' = Inr [[- ((10000000 / 10000001) ^ 3)]]"
    using v(1) unfolding e .
  from v v' pos c0 show ?thesis by simp
qed

section \<open>Lemmas about the reference vector\<close>

lemma finite_values_map_Finite: "finite_values (map Finite rs) = Some rs"
  by (induction rs) auto

lemma finite_values_NaN: "NaN \<in> set xs \<Longrightarrow> finite_values xs = None"
proof (induction xs)
  case Nil
  then show ?case by simp
next
  case (Cons x xs)
  then show ?case by (cases x) auto
qed

lemma linear_out_finite: "\<exists>r. linear_out w b (map Finite rs) = Finite r"
  by (simp add: linear_out_def finite_values_map_Finite)

lemma linear_out_NaN: "NaN \<in> set xs \<Longrightarrow> linear_out w b xs = NaN"
  by (simp add: linear_out_def finite_values_NaN)

lemma map_all_finite:
  assumes "\<And>x. x \<in> set xs \<Longrightarrow> \<exists>r. g x = Finite r"
  shows "\<exists>rs. map g xs = map Finite rs \<and> length rs = length xs"
  using assms
proof (induction xs)
  case Nil
  then show ?case by simp
next
  case (Cons x xs)
  then obtain r rs where "g x = Finite r" "map g xs = map Finite rs" "length rs = length xs"
    by (metis list.set_intros(1,2))
  then have "map g (x # xs) = map Finite (r # rs) \<and> length (r # rs) = length (x # xs)" by simp
  then show ?case by blast
qed

lemma scalar_sum_Finite: "scalar_sum (map Finite rs) = Finite (sum_list rs)"
  by (induction rs) auto

lemma list_all_nonneg_Finite: "list_all nonneg_scalar (map Finite rs) = (\<forall>r \<in> set rs. 0 \<le> r)"
  by (induction rs) auto

lemma sum_list_exp_pos: "rs \<noteq> [] \<Longrightarrow> 0 < (\<Sum>y\<leftarrow>rs. exp (y :: real))"
proof (induction rs)
  case Nil
  then show ?case by simp
next
  case (Cons r rs)
  have "0 \<le> (\<Sum>y\<leftarrow>rs. exp y)" by (rule sum_list_nonneg) auto
  moreover have "0 < exp r" by simp
  ultimately have "0 < exp r + (\<Sum>y\<leftarrow>rs. exp y)" by linarith
  then show ?case by simp
qed

lemma sum_list_divide: "(\<Sum>x\<leftarrow>xs. f x / (c :: real)) = (\<Sum>x\<leftarrow>xs. f x) / c"
  by (induction xs) (auto simp: add_divide_distrib)

lemma softmax_row_reference:
  assumes "rs \<noteq> []"
  shows "is_reference_row (length rs) (softmax_row (map Finite rs))"
proof -
  let ?S = "\<Sum>y\<leftarrow>rs. exp y"
  have S: "0 < ?S" by (rule sum_list_exp_pos[OF assms])
  have sm: "softmax_row (map Finite rs) = map Finite (map (\<lambda>x. exp x / ?S) rs)"
    by (simp add: softmax_row_def finite_values_map_Finite)
  have one: "sum_list (map (\<lambda>x. exp x / ?S) rs) = 1" using S by (simp add: sum_list_divide)
  have nn: "\<forall>r \<in> set (map (\<lambda>x. exp x / ?S) rs). 0 \<le> r" using S by auto
  have "length (map Finite (map (\<lambda>x. exp x / ?S) rs)) = length rs" by simp
  moreover have "list_all nonneg_scalar (map Finite (map (\<lambda>x. exp x / ?S) rs))"
    unfolding list_all_nonneg_Finite by (rule nn)
  moreover have "scalar_sum (map Finite (map (\<lambda>x. exp x / ?S) rs)) = Finite 1"
    unfolding scalar_sum_Finite one ..
  ultimately show ?thesis unfolding is_reference_row_def sm by blast
qed

lemma attention_e_finite:
  assumes C: "int C - 1 \<noteq> 0"
  shows "\<exists>r. linear_out gw gb
            (map scalar_tanh
               (map (\<lambda>j. linear_out (mw j) (mb j)
                      (map (\<lambda>f. amplitude (offdiag_mean ((B, F, C, C), entry) b f c)) [0..<F]))
                    [0..<A])) = Finite r"
proof -
  have "\<exists>r. amplitude (offdiag_mean ((B, F, C, C), entry) b f c) = Finite r" for f
    using C by (simp add: offdiag_mean_def)
  then obtain fs where
    fs: "map (\<lambda>f. amplitude (offdiag_mean ((B, F, C, C), entry) b f c)) [0..<F] = map Finite fs"
    using map_all_finite[of "[0..<F]" "\<lambda>f. amplitude (offdiag_mean ((B, F, C, C), entry) b f c)"]
    by blast
  have "\<exists>r. scalar_tanh (linear_out (mw j) (mb j) (map Finite fs)) = Finite r" for j
    using linear_out_finite[of "mw j" "mb j" fs] by auto
  then obtain ms where
    "map (\<lambda>j. scalar_tanh (linear_out (mw j) (mb j) (map Finite fs))) [0..<A] = map Finite ms"
    using map_all_finite[of "[0..<A]" "\<lambda>j. scalar_tanh (linear_out (mw j) (mb j) (map Finite fs))"]
    by blast
  then show ?thesis unfolding fs using linear_out_finite[of gw gb ms] by (simp add: comp_def)
qed

lemma attention_e_NaN:
  assumes F: "0 < F" and A: "0 < A"
  shows "linear_out gw gb
            (map scalar_tanh
               (map (\<lambda>j. linear_out (mw j) (mb j)
                      (map (\<lambda>f. amplitude (offdiag_mean ((B, F, 1, 1), entry) b f c)) [0..<F]))
                    [0..<A])) = NaN"
proof -
  have "amplitude (offdiag_mean ((B, F, 1, 1), entry) b 0 c) = NaN" by (simp add: offdiag_mean_def)
  moreover have "0 \<in> set [0..<F]" using F by simp
  ultimately have "NaN \<in> set (map (\<lambda>f. amplitude (offdiag_mean ((B, F, 1, 1), entry) b f c)) [0..<F])"
    by (metis (no_types, lifting) image_eqI set_map)
  then have n: "linear_out (mw j) (mb j)
          (map (\<lambda>f. amplitude (offdiag_mean ((B, F, 1, 1), entry) b f c)) [0..<F]) = NaN" for j
    by (rule linear_out_NaN)
  have "0 \<in> set [0..<A]" using A by simp
  then have "NaN \<in> set (map scalar_tanh
               (map (\<lambda>j. linear_out (mw j) (mb j)
                      (map (\<lambda>f. amplitude (offdiag_mean ((B, F, 1, 1), entry) b f c)) [0..<F]))
                    [0..<A]))"
    unfolding n by auto
  then show ?thesis by (rule linear_out_NaN)
qed

lemma attention_forward_multi:
  assumes C: "2 \<le> C" and F: "F = bidim self"
  shows "\<exists>u. AttentionReference_forward self ((B, F, C, C), entry) ilens scaling = Inr (u, ilens)
            \<and> length u = B \<and> list_all (is_reference_row C) u"
proof -
  let ?e = "\<lambda>b c. linear_out (gvec_weight self) (gvec_bias self)
            (map scalar_tanh
               (map (\<lambda>j. linear_out (mlp_weight self j) (mlp_bias self j)
                      (map (\<lambda>f. amplitude (offdiag_mean ((B, F, C, C), entry) b f c)) [0..<F]))
                    [0..<att_dim self]))"
  let ?u = "map (\<lambda>b. softmax_row (map (\<lambda>c. scalar_scale scaling (?e b c)) [0..<C])) [0..<B]"
  have C1: "int C - 1 \<noteq> 0" using C by simp
  have row: "is_reference_row C (softmax_row (map (\<lambda>c. scalar_scale scaling (?e b c)) [0..<C]))" for b
  proof -
    have "\<exists>r. scalar_scale scaling (?e b c) = Finite r" for c
      using attention_e_finite[OF C1, of "gvec_weight self" "gvec_bias self" "mlp_weight self"
          "mlp_bias self" B F entry b c "att_dim self"] by auto
    then obtain rs where rs: "map (\<lambda>c. scalar_scale scaling (?e b c)) [0..<C] = map Finite rs"
        "length rs = length [0..<C]"
      using map_all_finite[of "[0..<C]" "\<lambda>c. scalar_scale scaling (?e b c)"] by blast
    then have "rs \<noteq> []" using C by auto
    from softmax_row_reference[OF this] show ?thesis using rs by simp
  qed
  have "AttentionReference_forward self ((B, F, C, C), entry) ilens scaling = Inr (?u, ilens)"
    using F by (simp add: AttentionReference_forward_def)
  moreover have "length ?u = B" by simp
  moreover have "list_all (is_reference_row C) ?u" using row by (simp add: list_all_iff)
  ultimately show ?thesis by blast
qed

lemma softmax_row_single_NaN: "softmax_row [NaN] = [NaN]"
  by (simp add: softmax_row_def)

lemma attention_forward_single:
  assumes F: "F = bidim self" "0 < F" and A: "0 < att_dim self"
  shows "AttentionReference_forward self ((B, F, 1, 1), entry) ilens scaling
           = Inr (replicate B [NaN], ilens)"
proof -
  let ?e = "\<lambda>b c. linear_out (gvec_weight self) (gvec_bias self)
            (map scalar_tanh
               (map (\<lambda>j. linear_out (mlp_weight self j) (mlp_bias self j)
                      (map (\<lambda>f. amplitude (offdiag_mean ((B, F, 1, 1), entry) b f c)) [0..<F]))
                    [0..<att_dim self]))"
  have upt1: "[0..<1] = [0 :: nat]" by simp
  have row: "softmax_row (map (\<lambda>c. scalar_scale scaling (?e b c)) [0..<1]) = [NaN]" for b
    by (simp only: upt1 list.map attention_e_NaN[OF F(2) A] scalar_scale.simps
        softmax_row_single_NaN)
  have "map (\<lambda>b. softmax_row (map (\<lambda>c. scalar_scale scaling (?e b c)) [0..<1])) [0..<B]
        = map (\<lambda>b. [NaN]) [0..<B]"
    by (simp only: row)
  also have "\<dots> = replicate B [NaN]"
    using map_replicate_const[of "[NaN]" "[0..<B]"] by simp
  finally have u: "map (\<lambda>b. softmax_row (map (\<lambda>c. scalar_scale scaling (?e b c)) [0..<1])) [0..<B]
        = replicate B [NaN]" .
  have "AttentionReference_forward self ((B, F, 1, 1), entry) ilens scaling
          = Inr (map (\<lambda>b. softmax_row (map (\<lambda>c. scalar_scale scaling (?e b c)) [0..<1])) [0..<B],
                 ilens)"
    using F(1) by (simp add: AttentionReference_forward_def)
  then show ?thesis by (simp only: u)
qed

lemma offdiag_single: "offdiag_sum ((B, F, 1, 1), entry) b f 0 = 0"
  by (simp add: offdiag_sum_def)

lemma onehot_row_reference:
  assumes "j < C"
  shows "is_reference_row C (map (\<lambda>c. Finite (if int c = int j then 1 else 0)) [0..<C])"
proof -
  let ?rs = "map (\<lambda>c. if c = j then 1 else (0 :: real)) [0..<C]"
  have m: "map (\<lambda>c. Finite (if int c = int j then 1 else 0)) [0..<C] = map Finite ?rs"
    by (simp add: comp_def if_distrib)
  have "sum_list ?rs = (\<Sum>c \<in> set [0..<C]. if c = j then 1 else 0)"
    by (simp add: interv_sum_list_conv_sum_set_nat)
  also have "\<dots> = 1" using assms by simp
  finally have one: "sum_list ?rs = 1" .
  have nn: "\<forall>r \<in> set ?rs. 0 \<le> r" by auto
  have "length (map Finite ?rs) = C" by simp
  moreover have "list_all nonneg_scalar (map Finite ?rs)"
    unfolding list_all_nonneg_Finite by (rule nn)
  moreover have "scalar_sum (map Finite ?rs) = Finite 1" unfolding scalar_sum_Finite one ..
  ultimately show ?thesis unfolding is_reference_row_def m by blast
qed

section \<open>Claims about the reference vector\<close>

text \<open>
  Claim C10. \<open>AttentionReference.forward\<close> divides the off-diagonal row sums of the input
  covariance by \<open>C - 1\<close> without a guard. For a single channel the row sum is \<open>0\<close>, the
  quotient is \<open>0 / 0\<close>, and with at least one frequency bin and one attention unit every
  entry of the returned vector is NaN. For \<open>C \<ge> 2\<close> channels every row of the returned
  vector is finite (non-negative, summing to \<open>1\<close>).
\<close>

theorem attention_reference_needs_two_channels:
  "offdiag_sum ((B, F, 1, 1), entry) b f 0 = 0
   \<and> offdiag_mean ((B, F, 1, 1), entry) b f 0 = CNaN
   \<and> (F = bidim self \<longrightarrow> 0 < F \<longrightarrow> 0 < att_dim self \<longrightarrow>
         AttentionReference_forward self ((B, F, 1, 1), entry) ilens scaling
           = Inr (replicate B [NaN], ilens))
   \<and> (F = bidim self \<longrightarrow> 2 \<le> C \<longrightarrow>
         (\<exists>u. AttentionReference_forward self ((B, F, C, C), entry) ilens scaling = Inr (u, ilens)
              \<and> length u = B \<and> list_all (is_reference_row C) u))"
  using attention_forward_single[of F self B entry ilens scaling]
    attention_forward_multi[of C F self B entry ilens scaling]
    offdiag_single[of B F entry b f]
  by (simp add: offdiag_mean_def)

theorem attention_reference_needs_two_channels_witness:
  "AttentionReference_forward (zero_attention 1 1) (ones_tensor 1 1 1) [1] 2 = Inr ([[NaN]], [1])
   \<and> AttentionReference_forward (zero_attention 1 1) (ones_tensor 1 1 2) [1] 2
       = Inr ([[Finite (1 / 2), Finite (1 / 2)]], [1])
   \<and> is_reference_row 2 [Finite (1 / 2), Finite (1 / 2)]"
proof -
  note t = attention_reference_needs_two_channels[of 1 1 "\<lambda>b f c e. 1" 0 0 "zero_attention 1 1" "[1]" 2 2]
  have a: "AttentionReference_forward (zero_attention 1 1) (ones_tensor 1 1 1) [1] 2 = Inr ([[NaN]], [1])"
    using t[THEN conjunct2, THEN conjunct2, THEN conjunct1]
    by (simp add: zero_attention_def ones_tensor_def)
  have b: "AttentionReference_forward (zero_attention 1 1) (ones_tensor 1 1 2) [1] 2
       = Inr ([[Finite (1 / 2), Finite (1 / 2)]], [1])"
    by (simp add: AttentionReference_forward_def zero_attention_def ones_tensor_def offdiag_mean_def
        offdiag_sum_def linear_out_def softmax_row_def upt_rec numeral_eq_Suc)
  from t[THEN conjunct2, THEN conjunct2, THEN conjunct2] b
  have "is_reference_row 2 [Finite (1 / 2), Finite (1 / 2)]"
    by (simp add: zero_attention_def ones_tensor_def)
  with a b show ?thesis by simp
qed

text \<open>
  Claim C8, as amended. The reference vector \<open>u\<close> fed to the filter design is, for
  \<open>0 \<le> ref_channel < C\<close>, the one-hot vector with \<open>1\<close> at the configured channel in every
  batch row; for \<open>ref_channel < 0\<close> it is the output of \<open>AttentionReference\<close>, a softmax
  across the channels. In the first mode always, and in the second mode for \<open>C \<ge> 2\<close>
  channels, every row is non-negative and sums to \<open>1\<close>. The claim as stated, both modes
  without a condition on \<open>C\<close>, fails for the attention mode on a single channel: see the
  counterexample after the witness.
\<close>

theorem reference_vector_sums_to_one:
  "(0 \<le> ref_channel self \<longrightarrow> ref_channel self < int C \<longrightarrow>
      reference_vector att self (B, F, C, T) psd_speech ilens
        = Inr (replicate B (map (\<lambda>c. Finite (if int c = ref_channel self then 1 else 0)) [0..<C]))
      \<and> is_reference_row C (map (\<lambda>c. Finite (if int c = ref_channel self then 1 else 0)) [0..<C]))
   \<and> (ref_channel self < 0 \<longrightarrow>
        reference_vector att self (B, F, C, T) psd_speech ilens
          = map_sum id fst (AttentionReference_forward att psd_speech ilens 2))
   \<and> (ref_channel self < 0 \<longrightarrow> 2 \<le> C \<longrightarrow> F = bidim att \<longrightarrow>
        (\<exists>u. reference_vector att self (B, F, C, T) ((B, F, C, C), entry) ilens = Inr u
             \<and> length u = B \<and> list_all (is_reference_row C) u))"
proof (intro conjI impI)
  assume a: "0 \<le> ref_channel self" "ref_channel self < int C"
  then show "reference_vector att self (B, F, C, T) psd_speech ilens
        = Inr (replicate B (map (\<lambda>c. Finite (if int c = ref_channel self then 1 else 0)) [0..<C]))"
    by (simp add: reference_vector_def onehot_vector_def)
  from a have "nat (ref_channel self) < C" by simp
  from onehot_row_reference[OF this] a(1)
  show "is_reference_row C (map (\<lambda>c. Finite (if int c = ref_channel self then 1 else 0)) [0..<C])"
    by simp
next
  assume "ref_channel self < 0"
  then show "reference_vector att self (B, F, C, T) psd_speech ilens
          = map_sum id fst (AttentionReference_forward att psd_speech ilens 2)"
    by (simp add: reference_vector_def split: sum.splits prod.splits)
next
  assume a: "ref_channel self < 0" "2 \<le> C" "F = bidim att"
  from attention_forward_multi[OF a(2,3), of B entry ilens 2] obtain u where
    "AttentionReference_forward att ((B, F, C, C), entry) ilens 2 = Inr (u, ilens)"
    "length u = B" "list_all (is_reference_row C) u" by blast
  then show "\<exists>u. reference_vector att self (B, F, C, T) ((B, F, C, C), entry) ilens = Inr u
             \<and> length u = B \<and> list_all (is_reference_row C) u"
    using a(1) by (simp add: reference_vector_def)
qed

theorem reference_vector_sums_to_one_witness:
  "reference_vector (zero_attention 1 1)
      \<lparr>ref_channel = 1, nmask = 2, beamformer_type = ''mvdr'', eps = 1 / 10 ^ 7, btaps = 5, bdelay = 3\<rparr>
      (1, 1, 2, 1) (ones_tensor 1 1 2) [1]
     = Inr [[Finite 0, Finite 1]]
   \<and> is_reference_row 2 [Finite 0, Finite 1]
   \<and> reference_vector (zero_attention 1 1)
      \<lparr>ref_channel = - 1, nmask = 2, beamformer_type = ''mvdr'', eps = 1 / 10 ^ 7, btaps = 5, bdelay = 3\<rparr>
      (1, 1, 2, 1) (ones_tensor 1 1 2) [1]
     = Inr [[Finite (1 / 2), Finite (1 / 2)]]"
proof -
  let ?s1 = "\<lparr>ref_channel = 1, nmask = 2, beamformer_type = ''mvdr'', eps = 1 / 10 ^ 7,
               btaps = 5, bdelay = 3\<rparr>"
  let ?s2 = "\<lparr>ref_channel = - 1, nmask = 2, beamformer_type = ''mvdr'', eps = 1 / 10 ^ 7,
               btaps = 5, bdelay = 3\<rparr>"
  note t1 = reference_vector_sums_to_one[of ?s1 2 "zero_attention 1 1" 1 1 1 "ones_tensor 1 1 2" "[1]" "\<lambda>b f c e. 1"]
  have m: "map (\<lambda>c. Finite (if int c = 1 then 1 else 0)) [0..<2] = [Finite 0, Finite 1]"
    by (simp add: upt_rec numeral_eq_Suc)
  have a: "reference_vector (zero_attention 1 1) ?s1 (1, 1, 2, 1) (ones_tensor 1 1 2) [1]
             = Inr [[Finite 0, Finite 1]]"
    and b: "is_reference_row 2 [Finite 0, Finite 1]"
    using t1[THEN conjunct1] m by simp_all
  have c: "reference_vector (zero_attention 1 1) ?s2 (1, 1, 2, 1) (ones_tensor 1 1 2) [1]
     = Inr [[Finite (1 / 2), Finite (1 / 2)]]"
    by (simp add: reference_vector_def AttentionReference_forward_def zero_attention_def
        ones_tensor_def offdiag_mean_def
        offdiag_sum_def linear_out_def softmax_row_def upt_rec numeral_eq_Suc)
  from a b c show ?thesis by simp
qed

theorem reference_vector_counterexample:
  "reference_vector (zero_attention 1 1)
      \<lparr>ref_channel = - 1, nmask = 2, beamformer_type = ''mvdr'', eps = 1 / 10 ^ 7, btaps = 5, bdelay = 3\<rparr>
      (1, 1, 1, 1) (ones_tensor 1 1 1) [1]
     = Inr [[NaN]]
   \<and> \<not> is_reference_row 1 [NaN]"
  by (simp add: reference_vector_def AttentionReference_forward_def zero_attention_def
        ones_tensor_def offdiag_mean_def is_reference_row_def
        offdiag_sum_def linear_out_def softmax_row_def upt_rec numeral_eq_Suc)

section \<open>Lemmas about the stages of forward\<close>

lemma bind_err_Inr:
  "bind_err m k = Inr v \<Longrightarrow> \<exists>x. m = Inr x \<and> k x = Inr v"
  by (cases m) (auto simp: bind_err_def)

lemma bind_err_simps:
  "bind_err (Inr x) k = k x" "bind_err (Inl e) k = Inl e"
  by (simp_all add: bind_err_def)

lemma get_noise_ref_absent:
  "''noise_ref1'' \<notin> dom kwargs \<Longrightarrow> get_noise_ref self ops kwargs = Inr None"
  by (simp add: get_noise_ref_def)

lemma prepare_noise_ref:
  assumes "prepare self ops speech_mix lens kwargs = Inr ((nr, rest), ctx)"
    and "''noise_ref1'' \<notin> dom kwargs"
  shows "nr = None"
proof -
  from assms(1) obtain sr where
    "bind_err (get_noise_ref self ops kwargs) (\<lambda>noise_ref.
     bind_err (case kwargs ''ctx_1_lengths'' of
                 None \<Rightarrow> Inr (map (\<lambda>spk. kwargs (''ctx_'' @ str_of_nat (spk + 1))) [0..<num_spk self])
               | Some ctx_lengths \<Rightarrow>
                   crop_ctx ops
                     (map (\<lambda>spk. kwargs (''ctx_'' @ str_of_nat (spk + 1))) [0..<num_spk self])
                     ctx_lengths) (\<lambda>ctx_given.
     bind_err (prepare_lengths ops speech_mix sr lens)
       (\<lambda>(speech_mix, speech_ref, speech_lengths, batch_size).
     bind_err (ctx_stage self ops speech_mix speech_lengths ctx_given) (\<lambda>ctx.
       Inr ((noise_ref, speech_mix, speech_ref, speech_lengths, batch_size), ctx))))) = Inr ((nr, rest), ctx)"
    unfolding prepare_def by (blast dest: bind_err_Inr)
  then obtain cg where
    "bind_err (prepare_lengths ops speech_mix sr lens)
       (\<lambda>(speech_mix, speech_ref, speech_lengths, batch_size).
     bind_err (ctx_stage self ops speech_mix speech_lengths cg) (\<lambda>ctx.
       Inr ((None, speech_mix, speech_ref, speech_lengths, batch_size), ctx))) = Inr ((nr, rest), ctx)"
    unfolding get_noise_ref_absent[OF assms(2)] bind_err_simps by (blast dest: bind_err_Inr)
  then obtain pl where
    "(case pl of (speech_mix, speech_ref, speech_lengths, batch_size) \<Rightarrow>
     bind_err (ctx_stage self ops speech_mix speech_lengths cg) (\<lambda>ctx.
       Inr ((None, speech_mix, speech_ref, speech_lengths, batch_size), ctx))) = Inr ((nr, rest), ctx)"
    by (blast dest: bind_err_Inr)
  then show ?thesis
    by (auto simp: case_prod_unfold dest!: bind_err_Inr)
qed

lemma before_noise_check_noise_ref:
  assumes "before_noise_check self ops ((nr, rest), ctx) = Inr st"
  shows "st_noise_ref st = nr"
  using assms unfolding before_noise_check_def
  by (auto simp: case_prod_unfold dest!: bind_err_Inr)

lemma toy_prepare:
  "prepare toy_model (toy_ops pm) [1] None [''speech_ref1'' \<mapsto> [1]]
     = Inr ((None, [1], [1], [1], 1), [None], Finite 0, None)"
  by (simp add: prepare_def toy_model_def toy_ops_def get_speech_ref_def get_noise_ref_def
      ctx_stage_def lookup_def bind_err_def)

lemma toy_before_noise_check:
  "before_noise_check toy_model (toy_ops pm) ((None, [1], [1], [1], 1), [None], Finite 0, None)
     = Inr \<lparr>st_speech_ref = [[1]], st_speech_lengths = [1], st_batch_size = 1,
            st_spectrum_mix = [1], st_spectrum_pre = [[1]], st_mask_pre = pm,
            st_noise_ref = None, st_tf_loss = Finite 0, st_perm = PermTensor [0],
            st_ctx_loss = Finite 0\<rparr>"
  by (simp add: before_noise_check_def toy_model_def toy_ops_def tf_loss_by_type_def bind_err_def
      str_contains_def startswith_def permutation_loss_def permutations_def pair_loss_def
      torch_stack_def torch_min_row_def tensor_mean_def tensor_op_def enumerate_eq_zip)

section \<open>Claim about the missing noise reference\<close>

text \<open>
  Claim C7. In \<open>ESPnetEnhancementModel.forward\<close> on the time-frequency branch, when the
  steps before the check return normally, the dictionary of predicted masks holds the key
  \<open>noise1\<close> and \<open>kwargs\<close> holds no \<open>noise_ref1\<close>, then \<open>noise_ref\<close> is \<open>None\<close> and the call
  raises the ValueError whose message names the missing noise reference. This holds
  whatever the transform, the mask labels and the criterion would do on the noise side:
  none of them is reached.
\<close>

theorem missing_noise_reference_raises:
  assumes lt: "loss_type self \<noteq> ''si_snr''"
    and nk: "''noise_ref1'' \<notin> dom kwargs"
    and pr: "prepare self ops speech_mix lens kwargs = Inr prepared"
    and bn: "before_noise_check self ops prepared = Inr st"
    and mp: "st_mask_pre st = Some md" "''noise1'' \<in> dom md"
  shows "st_noise_ref st = None
       \<and> noise_loss_stage self ops st = Inl (ValueError no_noise_reference)
       \<and> enhancement_forward self ops speech_mix lens kwargs
           = Inl (ValueError no_noise_reference)"
proof -
  obtain nr rest ctx where p: "prepared = ((nr, rest), ctx)" by (metis surj_pair)
  have "nr = None" using prepare_noise_ref[OF pr[unfolded p] nk] .
  then have n: "st_noise_ref st = None"
    using before_noise_check_noise_ref[OF bn[unfolded p]] by simp
  have s: "noise_loss_stage self ops st = Inl (ValueError no_noise_reference)"
    using mp n by (simp add: noise_loss_stage_def)
  have "tf_branch self ops prepared = Inl (ValueError no_noise_reference)"
    unfolding tf_branch_def bn s bind_err_simps ..
  then have "enhancement_forward self ops speech_mix lens kwargs
           = Inl (ValueError no_noise_reference)"
    unfolding enhancement_forward_def pr bind_err_simps using lt by (simp add: bind_err_simps)
  with n s show ?thesis by simp
qed

theorem missing_noise_reference_raises_witness:
  "prepare toy_model (toy_ops (Some [''spk1'' \<mapsto> [1], ''noise1'' \<mapsto> [1]])) [1] None
       [''speech_ref1'' \<mapsto> [1]]
     = Inr ((None, [1], [1], [1], 1), [None], Finite 0, None)
   \<and> enhancement_forward toy_model (toy_ops (Some [''spk1'' \<mapsto> [1], ''noise1'' \<mapsto> [1]])) [1] None
       [''speech_ref1'' \<mapsto> [1]]
     = Inl (ValueError no_noise_reference)"
proof -
  let ?pm = "Some [''spk1'' \<mapsto> [1], ''noise1'' \<mapsto> [1 :: real]]"
  have lt: "loss_type toy_model \<noteq> ''si_snr''" by (simp add: toy_model_def)
  have nk: "''noise_ref1'' \<notin> dom [''speech_ref1'' \<mapsto> [1 :: real]]" by simp
  have mp: "st_mask_pre \<lparr>st_speech_ref = [[1 :: real]], st_speech_lengths = [1], st_batch_size = 1,
            st_spectrum_mix = [1], st_spectrum_pre = [[1]], st_mask_pre = ?pm,
            st_noise_ref = None, st_tf_loss = Finite 0, st_perm = PermTensor [0],
            st_ctx_loss = Finite 0\<rparr> = ?pm" by simp
  have d: "''noise1'' \<in> dom [''spk1'' \<mapsto> [1], ''noise1'' \<mapsto> [1 :: real]]" by simp
  from missing_noise_reference_raises[OF lt nk toy_prepare toy_before_noise_check mp d]
  show ?thesis using toy_prepare by blast
qed

end
